theory Spec2Isabelle
  imports Main
begin

section \<open>Schema model\<close>

text \<open>
  The development follows \<^verbatim>\<open>builder/def_table.go\<close>. A \<^verbatim>\<open>*Table\<close> is an address into
  an explicit store of tables; \<^verbatim>\<open>nil\<close> and any address outside the store are the same
  failure, the panic of a nil dereference. The structs \<^verbatim>\<open>Column\<close> and \<^verbatim>\<open>Key\<close> and the
  containers \<^verbatim>\<open>Columns\<close> and \<^verbatim>\<open>Keys\<close> are declared in files of the package that are not
  part of the sources at hand; they are modelled from the specification, and each such
  definition says so.
\<close>

type_synonym ref = nat

record DeprecatedActions =
  RenameTo :: string

text \<open>
  Modelled from the spec: the struct \<^verbatim>\<open>Column\<close> (section 3): a name, type metadata that
  the diff never inspects, optional deprecation metadata and the back-reference to the
  owning table. Columns are immutable once constructed, so a \<^verbatim>\<open>*Column\<close> is its value,
  and \<^verbatim>\<open>nil\<close> is \<open>None\<close>.
\<close>

record Column =
  Name :: string
  ColumnType :: string
  DeprecatedActions :: "DeprecatedActions option"
  Table :: "ref option"

text \<open>
  Modelled from the spec: the container \<^verbatim>\<open>Columns\<close> (sections 3 and 4.2): members in
  insertion order, \<^verbatim>\<open>Add\<close> an upsert by name that replaces in place or appends,
  \<^verbatim>\<open>Col\<close> the lookup by name, \<^verbatim>\<open>Range\<close> the iteration in order (the list itself).
\<close>

type_synonym Columns = "Column list"

fun Columns_Add :: "Column \<Rightarrow> Columns \<Rightarrow> Columns" where
  "Columns_Add c [] = [c]"
| "Columns_Add c (x # xs) =
     (if Column.Name x = Column.Name c then c # xs else x # Columns_Add c xs)"

definition Columns_Col :: "Columns \<Rightarrow> string \<Rightarrow> Column option" where
  "Columns_Col cols columnName = find (\<lambda>c. Column.Name c = columnName) cols"

text \<open>
  Modelled from the spec: \<^verbatim>\<open>Columns.Expr().Query()\<close>, the textual representation of a
  column list: the member names, separated by commas.
\<close>

fun Columns_Query :: "Columns \<Rightarrow> string" where
  "Columns_Query [] = []"
| "Columns_Query [c] = Column.Name c"
| "Columns_Query (c # cs) = Column.Name c @ '','' @ Columns_Query cs"

text \<open>
  Modelled from the spec: the struct \<^verbatim>\<open>Key\<close> (section 3): a name, the primary flag that
  \<^verbatim>\<open>IsPrimary()\<close> reads, the ordered member columns and the back-reference.
\<close>

record Key =
  Name :: string
  IsPrimary :: bool
  Columns :: Columns
  Table :: "ref option"

text \<open>Modelled from the spec: the container \<^verbatim>\<open>Keys\<close>, with the contract of \<^verbatim>\<open>Columns\<close>.\<close>

type_synonym Keys = "Key list"

fun Keys_Add :: "Key \<Rightarrow> Keys \<Rightarrow> Keys" where
  "Keys_Add k [] = [k]"
| "Keys_Add k (x # xs) =
     (if Key.Name x = Key.Name k then k # xs else x # Keys_Add k xs)"

definition Keys_Key :: "Keys \<Rightarrow> string \<Rightarrow> Key option" where
  "Keys_Key keys keyName = find (\<lambda>k. Key.Name k = keyName) keys"

text \<open>
  The struct \<^verbatim>\<open>Table\<close>. Its field \<^verbatim>\<open>Model\<close> is an interface value that no function of
  the file reads; it is left out.
\<close>

record Table =
  Name :: string
  Description :: "string list"
  Schema :: string
  ModelName :: string
  Columns :: Columns
  Keys :: Keys

type_synonym heap = "Table list"

datatype error = NilPointer | NotDeclared string

definition deref :: "heap \<Rightarrow> ref \<Rightarrow> Table option" where
  "deref h p = (if p < length h then Some (h ! p) else None)"

text \<open>
  Modelled from the spec: \<^verbatim>\<open>Column.On\<close> and \<^verbatim>\<open>Key.On\<close> return a copy of the member
  whose back-reference is the given table; the member itself is not written to.
\<close>

definition Column_On :: "Column \<Rightarrow> ref \<Rightarrow> Column" where
  "Column_On c t = c\<lparr>Column.Table := Some t\<rparr>"

definition Key_On :: "Key \<Rightarrow> ref \<Rightarrow> Key" where
  "Key_On k t = k\<lparr>Key.Table := Some t\<rparr>"

subsection \<open>AddCol, AddKey and the constructor T\<close>

definition AddCol :: "ref \<Rightarrow> Column option \<Rightarrow> heap \<Rightarrow> error + heap" where
  "AddCol t d h =
     (case d of
        None \<Rightarrow> Inr h
      | Some c \<Rightarrow>
          (case deref h t of
             None \<Rightarrow> Inl NilPointer
           | Some tab \<Rightarrow>
               Inr (h[t := tab\<lparr>Table.Columns :=
                      Columns_Add (Column_On c t) (Table.Columns tab)\<rparr>])))"

definition AddKey :: "ref \<Rightarrow> Key option \<Rightarrow> heap \<Rightarrow> error + heap" where
  "AddKey t key h =
     (case key of
        None \<Rightarrow> Inr h
      | Some k \<Rightarrow>
          (case deref h t of
             None \<Rightarrow> Inl NilPointer
           | Some tab \<Rightarrow>
               Inr (h[t := tab\<lparr>Table.Keys := Keys_Add (Key_On k t) (Table.Keys tab)\<rparr>])))"

text \<open>
  A \<^verbatim>\<open>TableDefinition\<close> is an interface value: the nil interface, a \<^verbatim>\<open>*Column\<close> (which
  may be a nil pointer), a \<^verbatim>\<open>*Key\<close> (likewise), or a value of any other type that
  implements the interface.
\<close>

datatype TableDefinition =
  NilDefinition
| ColumnDefinition "Column option"
| KeyDefinition "Key option"
| OtherDefinition

fun T_columns :: "ref \<Rightarrow> TableDefinition list \<Rightarrow> heap \<Rightarrow> error + heap" where
  "T_columns t [] h = Inr h"
| "T_columns t (ColumnDefinition d # ds) h =
     (case AddCol t d h of Inl e \<Rightarrow> Inl e | Inr h' \<Rightarrow> T_columns t ds h')"
| "T_columns t (_ # ds) h = T_columns t ds h"

fun T_keys :: "ref \<Rightarrow> TableDefinition list \<Rightarrow> heap \<Rightarrow> error + heap" where
  "T_keys t [] h = Inr h"
| "T_keys t (KeyDefinition d # ds) h =
     (case AddKey t d h of Inl e \<Rightarrow> Inl e | Inr h' \<Rightarrow> T_keys t ds h')"
| "T_keys t (_ # ds) h = T_keys t ds h"

definition T :: "string \<Rightarrow> TableDefinition list \<Rightarrow> heap \<Rightarrow> error + (ref \<times> heap)" where
  "T tableName tableDefinitions h =
     (let t = length h;
          h0 = h @ [\<lparr>Table.Name = tableName, Description = [], Schema = [],
                     ModelName = [], Columns = [], Keys = []\<rparr>]
      in case T_columns t tableDefinitions h0 of
           Inl e \<Rightarrow> Inl e
         | Inr h1 \<Rightarrow>
             (case T_keys t tableDefinitions h1 of
                Inl e \<Rightarrow> Inl e
              | Inr h2 \<Rightarrow> Inr (t, h2)))"

subsection \<open>WithSchema\<close>

text \<open>
  \<^verbatim>\<open>WithSchema\<close> has a value receiver: the call copies the table into a new variable
  \<^verbatim>\<open>t\<close>, whose address \<^verbatim>\<open>&t\<close> is returned. The copy is the new cell of the store.
\<close>

definition WithSchema :: "Table \<Rightarrow> string \<Rightarrow> heap \<Rightarrow> ref \<times> heap" where
  "WithSchema t schema h =
     (let p = length h;
          t1 = t\<lparr>Schema := schema\<rparr>;
          cols = foldl (\<lambda>cols col. Columns_Add (Column_On col p) cols) [] (Table.Columns t1);
          t2 = t1\<lparr>Table.Columns := cols\<rparr>;
          keys = foldl (\<lambda>keys key. Keys_Add (Key_On key p) keys) [] (Table.Keys t2);
          t3 = t2\<lparr>Table.Keys := keys\<rparr>
      in (p, h @ [t3]))"

subsection \<open>Diff\<close>

text \<open>
  The dialect is an interface; the diff only calls it. A dialect is the record of its
  operations, producing SQL expressions of some type \<open>'e\<close> that the diff never inspects.
\<close>

record 'e Dialect =
  AddColumn :: "Column \<Rightarrow> 'e"
  DropColumn :: "Column \<Rightarrow> 'e"
  ModifyColumn :: "Column \<Rightarrow> 'e"
  RenameColumn :: "Column \<Rightarrow> Column \<Rightarrow> 'e"
  AddIndex :: "Key \<Rightarrow> 'e"
  DropIndex :: "Key \<Rightarrow> 'e"
  PrimaryKeyName :: string

text \<open>
  \<^verbatim>\<open>strings.ToLower\<close> is a function of the Go library, not of the repository. The
  last pass of \<^verbatim>\<open>Diff\<close> takes it as the parameter \<open>toLower\<close>, so that whatever is
  proved of \<open>Diff\<close> holds of the library function on every name, whatever its letters.
  \<open>ToLower_ASCII\<close> is the library function on strings of ASCII bytes, where it moves
  the letters \<open>A\<close> to \<open>Z\<close> to \<open>a\<close> to \<open>z\<close> and keeps every other byte; the examples,
  whose names are all ASCII, are evaluated with it.
\<close>

definition ToLower_ASCII :: "string \<Rightarrow> string" where
  "ToLower_ASCII s =
     map (\<lambda>c. case map_of (zip ''ABCDEFGHIJKLMNOPQRSTUVWXYZ'' ''abcdefghijklmnopqrstuvwxyz'') c of
                 None \<Rightarrow> c
               | Some lower \<Rightarrow> lower) s"

text \<open>
  The callback of the column pass, for one column of the current table \<open>t\<close>. The
  state is the store (only \<open>prevTable\<close> is ever written) and the list of expressions so
  far.
\<close>

fun Diff_column ::
  "'e Dialect \<Rightarrow> ref \<Rightarrow> ref \<Rightarrow> Column \<Rightarrow> heap \<times> 'e list \<Rightarrow> error + (heap \<times> 'e list)" where
  "Diff_column dialect t prevTable col (h, exprList) =
     (case deref h prevTable of
        None \<Rightarrow> Inl NilPointer
      | Some prev \<Rightarrow>
          (case deref h t of
             None \<Rightarrow> Inl NilPointer
           | Some cur \<Rightarrow>
               if Columns_Col (Table.Columns prev) (Column.Name col) \<noteq> None then
                 (case Columns_Col (Table.Columns cur) (Column.Name col) of
                    Some currentCol \<Rightarrow>
                      (case DeprecatedActions currentCol of
                         Some actions \<Rightarrow>
                           (let renameTo = RenameTo actions in
                            if renameTo \<noteq> [] then
                              (let exprList1 =
                                     (case Columns_Col (Table.Columns prev) renameTo of
                                        Some prevCol \<Rightarrow> exprList @ [DropColumn dialect prevCol]
                                      | None \<Rightarrow> exprList)
                               in (case Columns_Col (Table.Columns cur) renameTo of
                                     None \<Rightarrow> Inl (NotDeclared renameTo)
                                   | Some targetCol \<Rightarrow>
                                       (case AddCol prevTable (Some targetCol) h of
                                          Inl e \<Rightarrow> Inl e
                                        | Inr h' \<Rightarrow>
                                            Inr (h', exprList1 @
                                                     [RenameColumn dialect col targetCol]))))
                            else Inr (h, exprList @ [DropColumn dialect col]))
                       | None \<Rightarrow> Inr (h, exprList @ [ModifyColumn dialect col]))
                  | None \<Rightarrow> Inr (h, exprList @ [DropColumn dialect col]))
               else if DeprecatedActions col = None
                 then Inr (h, exprList @ [AddColumn dialect col])
                 else Inr (h, exprList)))"

text \<open>
  \<^verbatim>\<open>t.Columns.Range\<close>: the callback on each member in order; a panic ends the walk.
  The walk is over the members that the current table has when the pass starts. The
  pass writes to \<open>prevTable\<close> only, so this is the list the iterator sees whenever the
  two tables are different objects, which the theorems below assume. (For one table
  diffed against itself the container would be written to while it is iterated, for
  which the specification of \<^verbatim>\<open>Range\<close> gives no guarantee.)
\<close>

fun Diff_columns ::
  "'e Dialect \<Rightarrow> ref \<Rightarrow> ref \<Rightarrow> Column list \<Rightarrow> heap \<times> 'e list \<Rightarrow> error + (heap \<times> 'e list)" where
  "Diff_columns dialect t prevTable [] s = Inr s"
| "Diff_columns dialect t prevTable (col # cols) s =
     (case Diff_column dialect t prevTable col s of
        Inl e \<Rightarrow> Inl e
      | Inr s' \<Rightarrow> Diff_columns dialect t prevTable cols s')"

text \<open>
  The callback of the pass over the current keys. \<open>Diff_key_name\<close> is the local
  \<^verbatim>\<open>name\<close>, and \<open>indexes\<close> is the set of keys of the map \<^verbatim>\<open>indexes\<close>. The comparison
  is the one the source makes: the text of the key's columns against the text of the
  columns of the previous table.
\<close>

definition Diff_key_name :: "'e Dialect \<Rightarrow> Key \<Rightarrow> string" where
  "Diff_key_name dialect key =
     (if IsPrimary key then PrimaryKeyName dialect else Key.Name key)"

fun Diff_key ::
  "'e Dialect \<Rightarrow> Table \<Rightarrow> Key \<Rightarrow> string set \<times> 'e list \<Rightarrow> string set \<times> 'e list" where
  "Diff_key dialect prev key (indexes, exprList) =
     (let name = Diff_key_name dialect key;
          indexes' = insert name indexes
      in (case Keys_Key (Table.Keys prev) name of
            None \<Rightarrow> (indexes', exprList @ [AddIndex dialect key])
          | Some prevKey \<Rightarrow>
              if \<not> IsPrimary key \<and>
                 Columns_Query (Key.Columns key) \<noteq> Columns_Query (Table.Columns prev)
              then (indexes', exprList @ [DropIndex dialect key] @ [AddIndex dialect key])
              else (indexes', exprList)))"

definition Diff_keys ::
  "'e Dialect \<Rightarrow> Table \<Rightarrow> Key list \<Rightarrow> string set \<times> 'e list \<Rightarrow> string set \<times> 'e list" where
  "Diff_keys dialect prev keys s = foldl (\<lambda>s key. Diff_key dialect prev key s) s keys"

text \<open>The callback of the last pass, over the keys of the previous table.\<close>

definition Diff_prev_key ::
  "(string \<Rightarrow> string) \<Rightarrow> 'e Dialect \<Rightarrow> string set \<Rightarrow> Key \<Rightarrow> 'e list \<Rightarrow> 'e list" where
  "Diff_prev_key toLower dialect indexes key exprList =
     (if toLower (Key.Name key) \<notin> indexes then exprList @ [DropIndex dialect key]
      else exprList)"

definition Diff_prev_keys ::
  "(string \<Rightarrow> string) \<Rightarrow> 'e Dialect \<Rightarrow> string set \<Rightarrow> Key list \<Rightarrow> 'e list \<Rightarrow> 'e list" where
  "Diff_prev_keys toLower dialect indexes keys exprList =
     foldl (\<lambda>exprList key. Diff_prev_key toLower dialect indexes key exprList) exprList keys"

text \<open>
  \<^verbatim>\<open>Diff\<close> returns the list of expressions and the store it leaves; a panic returns
  neither. Its first argument stands for \<^verbatim>\<open>strings.ToLower\<close>.
\<close>

definition Diff ::
  "(string \<Rightarrow> string) \<Rightarrow> 'e Dialect \<Rightarrow> ref \<Rightarrow> ref \<Rightarrow> heap \<Rightarrow> error + ('e list \<times> heap)" where
  "Diff toLower dialect t prevTable h =
     (case deref h t of
        None \<Rightarrow> Inl NilPointer
      | Some cur \<Rightarrow>
          (case Diff_columns dialect t prevTable (Table.Columns cur) (h, []) of
             Inl e \<Rightarrow> Inl e
           | Inr (h1, exprList1) \<Rightarrow>
               (case deref h1 prevTable of
                  None \<Rightarrow> Inl NilPointer
                | Some prev \<Rightarrow>
                    (case Diff_keys dialect prev (Table.Keys cur) ({}, exprList1) of
                       (indexes, exprList2) \<Rightarrow>
                         Inr (Diff_prev_keys toLower dialect indexes (Table.Keys prev) exprList2,
                              h1)))))"

text \<open>
  The symbolic dialect: every operation is its own constructor, so that a plan can be
  read back. Any other dialect renders the plan of the symbolic one.
\<close>

datatype SqlExpr =
  SqlAddColumn Column
| SqlDropColumn Column
| SqlModifyColumn Column
| SqlRenameColumn Column Column
| SqlAddIndex Key
| SqlDropIndex Key

definition symbolic :: "string \<Rightarrow> SqlExpr Dialect" where
  "symbolic primaryKeyName =
     \<lparr>AddColumn = SqlAddColumn, DropColumn = SqlDropColumn, ModifyColumn = SqlModifyColumn,
      RenameColumn = SqlRenameColumn, AddIndex = SqlAddIndex, DropIndex = SqlDropIndex,
      PrimaryKeyName = primaryKeyName\<rparr>"

fun render :: "'e Dialect \<Rightarrow> SqlExpr \<Rightarrow> 'e" where
  "render dialect (SqlAddColumn c) = AddColumn dialect c"
| "render dialect (SqlDropColumn c) = DropColumn dialect c"
| "render dialect (SqlModifyColumn c) = ModifyColumn dialect c"
| "render dialect (SqlRenameColumn c c') = RenameColumn dialect c c'"
| "render dialect (SqlAddIndex k) = AddIndex dialect k"
| "render dialect (SqlDropIndex k) = DropIndex dialect k"

subsection \<open>The registry Tables\<close>

text \<open>
  \<^verbatim>\<open>container/list\<close>: an element is known by its identity (its address in the source)
  and carries its value, here a \<^verbatim>\<open>*Table\<close>; the list hands out a new identity with every
  \<^verbatim>\<open>PushBack\<close>, and \<^verbatim>\<open>Remove\<close> takes out the element of that identity.
\<close>

record Element =
  ident :: nat
  Value :: ref

record List =
  elems :: "Element list"
  fresh :: nat

definition List_New :: List where
  "List_New = \<lparr>elems = [], fresh = 0\<rparr>"

definition PushBack :: "ref \<Rightarrow> List \<Rightarrow> Element \<times> List" where
  "PushBack v lst =
     (let e = \<lparr>ident = fresh lst, Value = v\<rparr>
      in (e, lst\<lparr>elems := elems lst @ [e], fresh := Suc (fresh lst)\<rparr>))"

definition List_Remove :: "Element \<Rightarrow> List \<Rightarrow> List" where
  "List_Remove e lst = lst\<lparr>elems := filter (\<lambda>x. ident x \<noteq> ident e) (elems lst)\<rparr>"

text \<open>The three fields of the struct are nil (\<open>None\<close>) until the first \<^verbatim>\<open>Add\<close>.\<close>

record Tables =
  l :: "List option"
  tables :: "(string \<rightharpoonup> Element) option"
  models :: "(string \<rightharpoonup> Element) option"

definition Tables_zero :: Tables where
  "Tables_zero = \<lparr>l = None, tables = None, models = None\<rparr>"

definition Tables_Remove :: "string \<Rightarrow> Tables \<Rightarrow> Tables" where
  "Tables_Remove name ts =
     (case tables ts of
        None \<Rightarrow> ts
      | Some m \<Rightarrow>
          (case m name of
             None \<Rightarrow> ts
           | Some e \<Rightarrow>
               ts\<lparr>l := map_option (List_Remove e) (l ts), tables := Some (m(name := None))\<rparr>))"

text \<open>The body of the loop of \<^verbatim>\<open>Add\<close>, for one table pointer.\<close>

definition Tables_Add_tab :: "heap \<Rightarrow> ref option \<Rightarrow> Tables \<Rightarrow> error + Tables" where
  "Tables_Add_tab h tab ts =
     (case tab of
        None \<Rightarrow> Inr ts
      | Some p \<Rightarrow>
          (case deref h p of
             None \<Rightarrow> Inl NilPointer
           | Some tb \<Rightarrow>
               (case tables ts of
                  None \<Rightarrow> Inl NilPointer
                | Some m0 \<Rightarrow>
                    (let ts1 = (if m0 (Table.Name tb) \<noteq> None
                                then Tables_Remove (Table.Name tb) ts else ts)
                     in (case (l ts1, tables ts1) of
                           (Some lst, Some m) \<Rightarrow>
                             (case PushBack p lst of
                                (e, lst') \<Rightarrow>
                                  (let ts2 = ts1\<lparr>l := Some lst',
                                                  tables := Some (m(Table.Name tb \<mapsto> e))\<rparr>
                                   in if ModelName tb \<noteq> [] then
                                        (case models ts2 of
                                           None \<Rightarrow> Inl NilPointer
                                         | Some mm \<Rightarrow>
                                             Inr (ts2\<lparr>models := Some (mm(ModelName tb \<mapsto> e))\<rparr>))
                                      else Inr ts2))
                         | _ \<Rightarrow> Inl NilPointer)))))"

fun Tables_Add_loop :: "heap \<Rightarrow> ref option list \<Rightarrow> Tables \<Rightarrow> error + Tables" where
  "Tables_Add_loop h [] ts = Inr ts"
| "Tables_Add_loop h (tab # tabs) ts =
     (case Tables_Add_tab h tab ts of
        Inl e \<Rightarrow> Inl e
      | Inr ts' \<Rightarrow> Tables_Add_loop h tabs ts')"

definition Tables_Add :: "heap \<Rightarrow> ref option list \<Rightarrow> Tables \<Rightarrow> error + Tables" where
  "Tables_Add h tabs ts =
     Tables_Add_loop h tabs
       (if tables ts = None
        then ts\<lparr>l := Some List_New, tables := Some Map.empty, models := Some Map.empty\<rparr>
        else ts)"

definition Tables_Table :: "Tables \<Rightarrow> string \<Rightarrow> ref option" where
  "Tables_Table ts tableName =
     (case tables ts of
        None \<Rightarrow> None
      | Some m \<Rightarrow> map_option Value (m tableName))"

definition Tables_Model :: "Tables \<Rightarrow> string \<Rightarrow> ref option" where
  "Tables_Model ts structName =
     (case models ts of
        None \<Rightarrow> None
      | Some m \<Rightarrow> map_option Value (m structName))"

text \<open>\<^verbatim>\<open>Range\<close> calls back on each value from the front; the model lists the values.\<close>

definition Tables_Range :: "Tables \<Rightarrow> ref list" where
  "Tables_Range ts =
     (case l ts of
        None \<Rightarrow> []
      | Some lst \<Rightarrow> map Value (elems lst))"

subsection \<open>Members of a definition list\<close>

text \<open>
  The members that the two loops of \<^verbatim>\<open>T\<close> hand on: the columns, and the keys, that are
  not nil pointers, in the order of the argument list.
\<close>

fun column_members :: "TableDefinition list \<Rightarrow> Column list" where
  "column_members [] = []"
| "column_members (ColumnDefinition (Some c) # ds) = c # column_members ds"
| "column_members (_ # ds) = column_members ds"

fun key_members :: "TableDefinition list \<Rightarrow> Key list" where
  "key_members [] = []"
| "key_members (KeyDefinition (Some k) # ds) = k # key_members ds"
| "key_members (_ # ds) = key_members ds"

subsection \<open>Example schemas\<close>

definition ex_column :: "string \<Rightarrow> Column" where
  "ex_column n =
     \<lparr>Column.Name = n, ColumnType = ''text'', DeprecatedActions = None, Table = None\<rparr>"

definition ex_deprecated :: "string \<Rightarrow> string \<Rightarrow> Column" where
  "ex_deprecated n renameTo =
     \<lparr>Column.Name = n, ColumnType = ''text'',
      DeprecatedActions = Some \<lparr>RenameTo = renameTo\<rparr>, Table = None\<rparr>"

definition ex_index :: "string \<Rightarrow> Column list \<Rightarrow> Key" where
  "ex_index n cols = \<lparr>Key.Name = n, IsPrimary = False, Columns = cols, Table = None\<rparr>"

definition ex_primary :: "string \<Rightarrow> Column list \<Rightarrow> Key" where
  "ex_primary n cols = \<lparr>Key.Name = n, IsPrimary = True, Columns = cols, Table = None\<rparr>"

definition ex_table :: "string \<Rightarrow> string \<Rightarrow> Column list \<Rightarrow> Key list \<Rightarrow> Table" where
  "ex_table n model cols keys =
     \<lparr>Table.Name = n, Description = [], Schema = [], ModelName = model,
      Columns = cols, Keys = keys\<rparr>"

subsection \<open>Predicates used in the statements\<close>

text \<open>A column carries a rename target: it is deprecated with a non-empty \<^verbatim>\<open>RenameTo\<close>.\<close>

definition has_rename_target :: "Column \<Rightarrow> bool" where
  "has_rename_target c =
     (case DeprecatedActions c of None \<Rightarrow> False | Some actions \<Rightarrow> RenameTo actions \<noteq> [])"

text \<open>The columns that an expression of the symbolic dialect is about.\<close>

fun expr_columns :: "SqlExpr \<Rightarrow> Column list" where
  "expr_columns (SqlAddColumn c) = [c]"
| "expr_columns (SqlDropColumn c) = [c]"
| "expr_columns (SqlModifyColumn c) = [c]"
| "expr_columns (SqlRenameColumn c c') = [c, c']"
| "expr_columns (SqlAddIndex k) = []"
| "expr_columns (SqlDropIndex k) = []"

subsection \<open>Sequences of registry operations\<close>

datatype TablesOp = OpAdd "ref option list" | OpRemove string

fun Tables_run :: "heap \<Rightarrow> TablesOp list \<Rightarrow> Tables \<Rightarrow> error + Tables" where
  "Tables_run h [] ts = Inr ts"
| "Tables_run h (OpAdd tabs # ops) ts =
     (case Tables_Add h tabs ts of
        Inl e \<Rightarrow> Inl e
      | Inr ts' \<Rightarrow> Tables_run h ops ts')"
| "Tables_run h (OpRemove name # ops) ts = Tables_run h ops (Tables_Remove name ts)"

text \<open>What a caller can see of a registry: the iteration order and two lookups.\<close>

definition Tables_view :: "string \<Rightarrow> string \<Rightarrow> Tables \<Rightarrow> ref list \<times> ref option \<times> ref option" where
  "Tables_view tableName structName ts =
     (Tables_Range ts, Tables_Table ts tableName, Tables_Model ts structName)"

text \<open>
  \<^verbatim>\<open>TableNames\<close>: the names of the tables in iteration order; reading the name
  dereferences the pointer.
\<close>

fun Tables_names :: "heap \<Rightarrow> ref list \<Rightarrow> error + string list" where
  "Tables_names h [] = Inr []"
| "Tables_names h (p # ps) =
     (case deref h p of
        None \<Rightarrow> Inl NilPointer
      | Some tb \<Rightarrow>
          (case Tables_names h ps of
             Inl e \<Rightarrow> Inl e
           | Inr names \<Rightarrow> Inr (Table.Name tb # names)))"

definition TableNames :: "heap \<Rightarrow> Tables \<Rightarrow> error + string list" where
  "TableNames h ts = Tables_names h (Tables_Range ts)"

text \<open>
  The invariant of a registry whose tables live in the store \<open>h\<close>: either nothing is
  initialised, or the elements of the list have distinct identities below the next
  one, every element is the entry of the name index under the name of its table, and
  the name index has no other keys.
\<close>

definition entry_name :: "heap \<Rightarrow> Element \<Rightarrow> string" where
  "entry_name h e = (case deref h (Value e) of None \<Rightarrow> [] | Some tb \<Rightarrow> Table.Name tb)"

definition Tables_inv :: "heap \<Rightarrow> Tables \<Rightarrow> bool" where
  "Tables_inv h ts =
     (case (l ts, tables ts, models ts) of
        (None, None, None) \<Rightarrow> True
      | (Some lst, Some m, Some mm) \<Rightarrow>
          distinct (map ident (elems lst)) \<and>
          list_all (\<lambda>e. ident e < fresh lst \<and> deref h (Value e) \<noteq> None \<and>
                        m (entry_name h e) = Some e) (elems lst) \<and>
          dom m = entry_name h ` set (elems lst)
      | _ \<Rightarrow> False)"

text \<open>The targets of the renames of a plan of the symbolic dialect, in its order.\<close>

fun rename_targets :: "SqlExpr list \<Rightarrow> Column list" where
  "rename_targets [] = []"
| "rename_targets (SqlRenameColumn c target # es) = target # rename_targets es"
| "rename_targets (_ # es) = rename_targets es"

section \<open>Properties\<close>

subsection \<open>The store and the containers\<close>

lemma deref_append_last [simp]: "deref (h @ [tab]) (length h) = Some tab"
  by (simp add: deref_def)

lemma deref_append_old: "deref h p = Some tab \<Longrightarrow> deref (h @ [x]) p = Some tab"
  by (auto simp: deref_def nth_append split: if_splits)

lemma Column_On_Name [simp]: "Column.Name (Column_On c p) = Column.Name c"
  by (simp add: Column_On_def)

lemma Key_On_Name [simp]: "Key.Name (Key_On k p) = Key.Name k"
  by (simp add: Key_On_def)

lemma Columns_Add_new:
  "Column.Name c \<notin> Column.Name ` set cols \<Longrightarrow> Columns_Add c cols = cols @ [c]"
  by (induction cols) auto

lemma Keys_Add_new:
  "Key.Name k \<notin> Key.Name ` set keys \<Longrightarrow> Keys_Add k keys = keys @ [k]"
  by (induction keys) auto

subsection \<open>The constructor and the nil members\<close>

lemma T_columns_new:
  "T_columns (length h) ds (h @ [tab]) =
     Inr (h @ [tab\<lparr>Table.Columns :=
                foldl (\<lambda>cols c. Columns_Add (Column_On c (length h)) cols)
                  (Table.Columns tab) (column_members ds)\<rparr>])"
proof (induction ds arbitrary: tab)
  case Nil
  then show ?case by simp
next
  case (Cons d ds)
  show ?case
  proof (cases d)
    case (ColumnDefinition c)
    then show ?thesis
      by (cases c) (simp_all add: AddCol_def Cons.IH)
  qed (simp_all add: Cons.IH)
qed

lemma T_keys_new:
  "T_keys (length h) ds (h @ [tab]) =
     Inr (h @ [tab\<lparr>Table.Keys :=
                foldl (\<lambda>keys k. Keys_Add (Key_On k (length h)) keys)
                  (Table.Keys tab) (key_members ds)\<rparr>])"
proof (induction ds arbitrary: tab)
  case Nil
  then show ?case by simp
next
  case (Cons d ds)
  show ?case
  proof (cases d)
    case (KeyDefinition k)
    then show ?thesis
      by (cases k) (simp_all add: AddKey_def Cons.IH)
  qed (simp_all add: Cons.IH)
qed

text \<open>
  Claim C10. \<^verbatim>\<open>AddCol\<close> with a nil column and \<^verbatim>\<open>AddKey\<close> with a nil key return
  normally and leave the store, hence the table's columns and keys, as they were. So
  \<^verbatim>\<open>T\<close> never fails: it returns a new table that holds the non-nil columns of the
  argument list, added in order, then its non-nil keys; nil members and members of any
  other kind are passed over, and no other table is touched.
\<close>

theorem nil_members_are_skipped:
  "AddCol t None h = Inr h \<and> AddKey t None h = Inr h \<and>
   T tableName ds h =
     Inr (length h,
          h @ [\<lparr>Table.Name = tableName, Description = [], Schema = [], ModelName = [],
                 Columns = foldl (\<lambda>cols c. Columns_Add (Column_On c (length h)) cols) []
                             (column_members ds),
                 Keys = foldl (\<lambda>keys k. Keys_Add (Key_On k (length h)) keys) []
                          (key_members ds)\<rparr>])"
  by (simp add: AddCol_def AddKey_def T_def Let_def T_columns_new T_keys_new)

theorem nil_members_are_skipped_witness:
  "AddCol 0 None [] = Inr [] \<and> AddKey 0 None [] = Inr [] \<and>
   T ''users''
     [NilDefinition, KeyDefinition (Some (ex_primary ''pk'' [ex_column ''id''])),
      ColumnDefinition None, OtherDefinition, ColumnDefinition (Some (ex_column ''id'')),
      KeyDefinition None] [] =
     Inr (0, [ex_table ''users'' [] [(ex_column ''id'')\<lparr>Column.Table := Some 0\<rparr>]
                [(ex_primary ''pk'' [ex_column ''id''])\<lparr>Key.Table := Some 0\<rparr>]])"
  using nil_members_are_skipped [of 0 "[]" "''users''"
      "[NilDefinition, KeyDefinition (Some (ex_primary ''pk'' [ex_column ''id''])),
        ColumnDefinition None, OtherDefinition, ColumnDefinition (Some (ex_column ''id'')),
        KeyDefinition None]"]
  by (simp add: ex_table_def Column_On_def Key_On_def)

subsection \<open>WithSchema\<close>

lemma foldl_Columns_Add_distinct:
  "distinct (map Column.Name cols) \<Longrightarrow>
   Column.Name ` set acc \<inter> Column.Name ` set cols = {} \<Longrightarrow>
   foldl (\<lambda>cols c. Columns_Add (Column_On c p) cols) acc cols =
     acc @ map (\<lambda>c. Column_On c p) cols"
proof (induction cols arbitrary: acc)
  case Nil
  then show ?case by simp
next
  case (Cons c cols)
  have new: "Column.Name (Column_On c p) \<notin> Column.Name ` set acc"
    using Cons.prems(2) by auto
  have "Column.Name ` set (acc @ [Column_On c p]) \<inter> Column.Name ` set cols = {}"
    using Cons.prems by auto
  with Cons.IH [of "acc @ [Column_On c p]"] Cons.prems(1) new show ?case
    by (simp add: Columns_Add_new)
qed

lemma foldl_Keys_Add_distinct:
  "distinct (map Key.Name keys) \<Longrightarrow>
   Key.Name ` set acc \<inter> Key.Name ` set keys = {} \<Longrightarrow>
   foldl (\<lambda>keys k. Keys_Add (Key_On k p) keys) acc keys =
     acc @ map (\<lambda>k. Key_On k p) keys"
proof (induction keys arbitrary: acc)
  case Nil
  then show ?case by simp
next
  case (Cons k keys)
  have new: "Key.Name (Key_On k p) \<notin> Key.Name ` set acc"
    using Cons.prems(2) by auto
  have "Key.Name ` set (acc @ [Key_On k p]) \<inter> Key.Name ` set keys = {}"
    using Cons.prems by auto
  with Cons.IH [of "acc @ [Key_On k p]"] Cons.prems(1) new show ?case
    by (simp add: Keys_Add_new)
qed

text \<open>
  Claim C8. For a table \<open>t\<close> that lives at \<open>orig\<close> and whose member names are unique
  (the invariant of the containers), \<^verbatim>\<open>t.WithSchema(schema)\<close> returns an address that
  was not in use; the table there has the schema \<open>schema\<close>, every other field of \<open>t\<close>,
  and the columns and keys of \<open>t\<close>, each with its back-reference set to the new
  address; the table at \<open>orig\<close> is still \<open>t\<close>, with its schema, its collections and the
  back-references of its members, and so is every cell of the store that existed.
\<close>

theorem WithSchema_rebuilds_copy:
  assumes "distinct (map Column.Name (Table.Columns t))"
    and "distinct (map Key.Name (Table.Keys t))"
    and "deref h orig = Some t"
  shows "deref h (fst (WithSchema t schema h)) = None \<and>
         deref (snd (WithSchema t schema h)) (fst (WithSchema t schema h)) =
           Some (t\<lparr>Schema := schema,
                   Table.Columns :=
                     map (\<lambda>c. Column_On c (fst (WithSchema t schema h))) (Table.Columns t),
                   Table.Keys :=
                     map (\<lambda>k. Key_On k (fst (WithSchema t schema h))) (Table.Keys t)\<rparr>) \<and>
         deref (snd (WithSchema t schema h)) orig = Some t \<and>
         take (length h) (snd (WithSchema t schema h)) = h"
  using assms
  by (simp add: WithSchema_def Let_def foldl_Columns_Add_distinct foldl_Keys_Add_distinct
      deref_append_old) (simp add: deref_def)

theorem WithSchema_rebuilds_copy_witness:
  "distinct (map Column.Name [ex_column ''id'', ex_column ''name'']) \<and>
   distinct (map Key.Name [ex_primary ''pk'' [ex_column ''id'']]) \<and>
   deref [ex_table ''users'' ''User'' [ex_column ''id'', ex_column ''name'']
            [ex_primary ''pk'' [ex_column ''id'']]] 0 =
     Some (ex_table ''users'' ''User'' [ex_column ''id'', ex_column ''name'']
             [ex_primary ''pk'' [ex_column ''id'']]) \<and>
   WithSchema (ex_table ''users'' ''User'' [ex_column ''id'', ex_column ''name'']
                 [ex_primary ''pk'' [ex_column ''id'']]) ''public''
     [ex_table ''users'' ''User'' [ex_column ''id'', ex_column ''name'']
        [ex_primary ''pk'' [ex_column ''id'']]] =
     (1, [ex_table ''users'' ''User'' [ex_column ''id'', ex_column ''name'']
            [ex_primary ''pk'' [ex_column ''id'']],
          (ex_table ''users'' ''User''
             [(ex_column ''id'')\<lparr>Column.Table := Some 1\<rparr>,
              (ex_column ''name'')\<lparr>Column.Table := Some 1\<rparr>]
             [(ex_primary ''pk'' [ex_column ''id''])\<lparr>Key.Table := Some 1\<rparr>])
            \<lparr>Schema := ''public''\<rparr>])"
  using WithSchema_rebuilds_copy [of
      "ex_table ''users'' ''User'' [ex_column ''id'', ex_column ''name'']
         [ex_primary ''pk'' [ex_column ''id'']]"
      "[ex_table ''users'' ''User'' [ex_column ''id'', ex_column ''name'']
          [ex_primary ''pk'' [ex_column ''id'']]]" 0 "''public''"]
  by (simp add: WithSchema_def ex_table_def ex_column_def ex_primary_def deref_def
      Column_On_def Key_On_def)

subsection \<open>Evaluation of the examples\<close>

lemmas ex_defs = ex_column_def ex_deprecated_def ex_index_def ex_primary_def ex_table_def

lemmas diff_defs = Diff_def deref_def Columns_Col_def Keys_Key_def symbolic_def AddCol_def
  Column_On_def Diff_keys_def Diff_prev_keys_def Diff_prev_key_def Diff_key_name_def
  ToLower_ASCII_def Let_def

subsection \<open>What Diff writes\<close>

lemma deref_update:
  "deref (h[p := x]) q = (if q = p \<and> p < length h then Some x else deref h q)"
  by (simp add: deref_def)

lemma AddCol_Some:
  "deref h p = Some prev \<Longrightarrow>
   AddCol p (Some c) h =
     Inr (h[p := prev\<lparr>Table.Columns := Columns_Add (Column_On c p) (Table.Columns prev)\<rparr>])"
  by (simp add: AddCol_def)

lemma update_same:
  "deref h p = Some prev \<Longrightarrow> h[p := prev] = h"
  by (auto simp: deref_def split: if_splits)

lemma Columns_Col_Some: "Columns_Col cols n = Some c \<Longrightarrow> c \<in> set cols \<and> Column.Name c = n"
  by (auto simp: Columns_Col_def find_Some_iff)

lemma Columns_Col_None: "Columns_Col cols n = None \<longleftrightarrow> n \<notin> Column.Name ` set cols"
  by (auto simp: Columns_Col_def find_None_iff)

lemma Columns_Col_distinct:
  "distinct (map Column.Name cols) \<Longrightarrow> c \<in> set cols \<Longrightarrow> Columns_Col cols (Column.Name c) = Some c"
  unfolding Columns_Col_def by (induction cols) auto

lemma Columns_Add_names:
  "Column.Name ` set (Columns_Add c cols) = insert (Column.Name c) (Column.Name ` set cols)"
  by (induction cols) auto

text \<open>
  One step of the column pass, and then the pass, write to the previous table only, and
  there to its columns only, whose names they keep.
\<close>

lemma Diff_column_shape:
  assumes "t \<noteq> p" "deref h t = Some cur" "deref h p = Some prev"
      and "Diff_column d t p col (h, es) = Inr (h', es')"
  shows "\<exists>cs ops. h' = h[p := prev\<lparr>Table.Columns := cs\<rparr>] \<and> es' = es @ ops \<and>
           Column.Name ` set (Table.Columns prev) \<subseteq> Column.Name ` set cs"
proof (cases "h' = h")
  case True
  then have "h' = h[p := prev\<lparr>Table.Columns := Table.Columns prev\<rparr>]"
    using assms(3) by (simp add: update_same)
  moreover have "\<exists>ops. es' = es @ ops"
    using assms(4) by (auto simp: assms(2,3) Let_def AddCol_Some split: option.splits if_splits)
  ultimately show ?thesis by blast
next
  case False
  then obtain target where
    "h' = h[p := prev\<lparr>Table.Columns := Columns_Add (Column_On target p) (Table.Columns prev)\<rparr>]"
    "\<exists>ops. es' = es @ ops"
    using assms(4) by (auto simp: assms(2,3) Let_def AddCol_Some split: option.splits if_splits)
  moreover have "Column.Name ` set (Table.Columns prev) \<subseteq>
      Column.Name ` set (Columns_Add (Column_On target p) (Table.Columns prev))"
    by (auto simp: Columns_Add_names)
  ultimately show ?thesis by blast
qed

lemma Diff_columns_shape:
  assumes "t \<noteq> p" "deref h t = Some cur" "deref h p = Some prev"
      and "Diff_columns d t p cols (h, es) = Inr (h', es')"
  shows "\<exists>cs ops. h' = h[p := prev\<lparr>Table.Columns := cs\<rparr>] \<and> es' = es @ ops \<and>
           Column.Name ` set (Table.Columns prev) \<subseteq> Column.Name ` set cs"
  using assms
proof (induction cols arbitrary: h es prev)
  case Nil
  then have "h' = h[p := prev\<lparr>Table.Columns := Table.Columns prev\<rparr>]" "es' = es @ []"
    by (simp_all add: update_same)
  then show ?case by blast
next
  case (Cons col cols)
  from Cons.prems(4) obtain h1 es1 where
    step: "Diff_column d t p col (h, es) = Inr (h1, es1)" and
    rest: "Diff_columns d t p cols (h1, es1) = Inr (h', es')"
    by (auto split: sum.splits)
  from Diff_column_shape [OF Cons.prems(1-3) step] obtain cs ops where
    h1: "h1 = h[p := prev\<lparr>Table.Columns := cs\<rparr>]" and es1: "es1 = es @ ops" and
    sub: "Column.Name ` set (Table.Columns prev) \<subseteq> Column.Name ` set cs"
    by blast
  have p: "p < length h" using Cons.prems(3) by (auto simp: deref_def split: if_splits)
  have t1: "deref h1 t = Some cur"
    using Cons.prems(1,2) by (simp add: h1 deref_update)
  have p1: "deref h1 p = Some (prev\<lparr>Table.Columns := cs\<rparr>)"
    using p by (simp add: h1 deref_update)
  from Cons.IH [OF Cons.prems(1) t1 p1 rest] obtain cs' ops' where
    "h' = h1[p := prev\<lparr>Table.Columns := cs\<rparr>\<lparr>Table.Columns := cs'\<rparr>]" "es' = es1 @ ops'"
    "Column.Name ` set (Table.Columns (prev\<lparr>Table.Columns := cs\<rparr>)) \<subseteq> Column.Name ` set cs'"
    by blast
  then have "h' = h[p := prev\<lparr>Table.Columns := cs'\<rparr>]" "es' = es @ (ops @ ops')"
    "Column.Name ` set (Table.Columns prev) \<subseteq> Column.Name ` set cs'"
    using sub by (auto simp: h1 es1)
  then show ?case by blast
qed

lemma Diff_column_no_rename:
  assumes "t \<noteq> p" "deref h t = Some cur" "deref h p = Some prev"
      and "list_all (\<lambda>c. \<not> has_rename_target c) (Table.Columns cur)"
      and "Diff_column d t p col (h, es) = Inr (h', es')"
  shows "h' = h"
proof -
  have "\<not> has_rename_target cc" if "Columns_Col (Table.Columns cur) n = Some cc" for n cc
    using that assms(4) Columns_Col_Some [OF that] by (auto simp: list_all_iff)
  then show ?thesis
    using assms(5)
    by (fastforce simp: assms(2,3) Let_def has_rename_target_def
        split: option.splits if_splits)
qed

lemma Diff_columns_no_rename:
  assumes "t \<noteq> p" "deref h t = Some cur" "deref h p = Some prev"
      and "list_all (\<lambda>c. \<not> has_rename_target c) (Table.Columns cur)"
      and "Diff_columns d t p cols (h, es) = Inr (h', es')"
  shows "h' = h"
  using assms(5)
proof (induction cols arbitrary: es)
  case Nil
  then show ?case by simp
next
  case (Cons col cols)
  from Cons.prems obtain h1 es1 where
    step: "Diff_column d t p col (h, es) = Inr (h1, es1)" and
    rest: "Diff_columns d t p cols (h1, es1) = Inr (h', es')"
    by (auto split: sum.splits)
  have "h1 = h" by (rule Diff_column_no_rename [OF assms(1-4) step])
  with rest Cons.IH show ?case by simp
qed

subsection \<open>The undeclared rename target\<close>

lemma Diff_column_undeclared:
  assumes "deref h t = Some cur" "deref h p = Some prev"
      and "Columns_Col (Table.Columns prev) (Column.Name col) \<noteq> None"
      and "Columns_Col (Table.Columns cur) (Column.Name col) = Some cc"
      and "DeprecatedActions cc = Some a" "RenameTo a \<noteq> []"
      and "Columns_Col (Table.Columns cur) (RenameTo a) = None"
  shows "Diff_column d t p col (h, es) = Inl (NotDeclared (RenameTo a))"
  using assms by (simp add: Let_def)

lemma Diff_column_error:
  assumes "deref h t = Some cur" "deref h p = Some prev"
      and "Diff_column d t p col (h, es) = Inl e"
  shows "\<exists>r. e = NotDeclared r \<and> Columns_Col (Table.Columns cur) r = None"
  using assms(3)
  by (auto simp: assms(1,2) Let_def AddCol_Some split: option.splits if_splits)

lemma Diff_columns_undeclared:
  assumes "t \<noteq> p" "deref h t = Some cur" "deref h p = Some prev"
      and "col \<in> set cols"
      and "Columns_Col (Table.Columns prev) (Column.Name col) \<noteq> None"
      and "Columns_Col (Table.Columns cur) (Column.Name col) = Some cc"
      and "DeprecatedActions cc = Some a" "RenameTo a \<noteq> []"
      and "Columns_Col (Table.Columns cur) (RenameTo a) = None"
  shows "\<exists>r. Diff_columns d t p cols (h, es) = Inl (NotDeclared r) \<and>
             Columns_Col (Table.Columns cur) r = None"
  using assms(2-5)
proof (induction cols arbitrary: h es prev)
  case Nil
  then show ?case by simp
next
  case (Cons x xs)
  show ?case
  proof (cases "Diff_column d t p x (h, es)")
    case (Inl e)
    with Diff_column_error [OF Cons.prems(1,2) Inl] show ?thesis
      by (auto simp del: Diff_column.simps)
  next
    case (Inr s)
    obtain h1 es1 where s: "s = (h1, es1)" by (cases s)
    from Diff_column_shape [OF assms(1) Cons.prems(1,2) Inr [unfolded s]] obtain cs where
      h1: "h1 = h[p := prev\<lparr>Table.Columns := cs\<rparr>]" and
      sub: "Column.Name ` set (Table.Columns prev) \<subseteq> Column.Name ` set cs"
      by blast
    have "x \<noteq> col"
      using Diff_column_undeclared [OF Cons.prems(1,2,4) assms(6-9), of d es] Inr
      by (auto simp del: Diff_column.simps)
    then have mem: "col \<in> set xs" using Cons.prems(3) by simp
    have plen: "p < length h" using Cons.prems(2) by (auto simp: deref_def split: if_splits)
    have t1: "deref h1 t = Some cur"
      using assms(1) Cons.prems(1) by (simp add: h1 deref_update)
    have p1: "deref h1 p = Some (prev\<lparr>Table.Columns := cs\<rparr>)"
      using plen by (simp add: h1 deref_update)
    have known: "Columns_Col (Table.Columns (prev\<lparr>Table.Columns := cs\<rparr>)) (Column.Name col) \<noteq> None"
      using Cons.prems(4) sub by (auto simp: Columns_Col_None)
    from Cons.IH [OF t1 p1 mem known, of es1] show ?thesis
      by (simp add: Inr s del: Diff_column.simps)
  qed
qed

text \<open>
  Claim C3. Let a column that the current table registers under its name be known to
  the previous table too, and let it carry a non-empty rename target under which the
  current table registers no column. Then \<^verbatim>\<open>Diff\<close> of two distinct tables panics: it
  returns no plan at all, and the panic names a rename target that is not declared.
\<close>

theorem Diff_undeclared_rename_target_fails:
  assumes "t \<noteq> p" and "deref h t = Some cur" and "deref h p = Some prev"
    and "Columns_Col (Table.Columns cur) (Column.Name col) = Some col"
    and "Columns_Col (Table.Columns prev) (Column.Name col) \<noteq> None"
    and "DeprecatedActions col = Some actions" and "RenameTo actions \<noteq> []"
    and "Columns_Col (Table.Columns cur) (RenameTo actions) = None"
  shows "\<exists>r. Diff lower d t p h = Inl (NotDeclared r) \<and> Columns_Col (Table.Columns cur) r = None"
proof -
  have "col \<in> set (Table.Columns cur)"
    using Columns_Col_Some [OF assms(4)] by simp
  from Diff_columns_undeclared [OF assms(1-3) this assms(5) assms(4) assms(6-8), of d "[]"]
  show ?thesis by (auto simp: Diff_def assms(2))
qed

theorem Diff_undeclared_rename_target_fails_witness:
  "(0::nat) \<noteq> 1 \<and>
   Columns_Col [ex_column ''id'', ex_deprecated ''old_name'' ''new_name'']
     (Column.Name (ex_deprecated ''old_name'' ''new_name'')) =
     Some (ex_deprecated ''old_name'' ''new_name'') \<and>
   Columns_Col [ex_column ''id'', ex_column ''old_name'']
     (Column.Name (ex_deprecated ''old_name'' ''new_name'')) \<noteq> None \<and>
   Columns_Col [ex_column ''id'', ex_deprecated ''old_name'' ''new_name''] ''new_name'' = None \<and>
   Diff ToLower_ASCII (symbolic ''primary'') 0 1
     [ex_table ''t'' [] [ex_column ''id'', ex_deprecated ''old_name'' ''new_name''] [],
      ex_table ''t'' [] [ex_column ''id'', ex_column ''old_name''] []] =
     Inl (NotDeclared ''new_name'')"
  using Diff_undeclared_rename_target_fails [of 0 1
      "[ex_table ''t'' [] [ex_column ''id'', ex_deprecated ''old_name'' ''new_name''] [],
        ex_table ''t'' [] [ex_column ''id'', ex_column ''old_name''] []]"
      "ex_table ''t'' [] [ex_column ''id'', ex_deprecated ''old_name'' ''new_name''] []"
      "ex_table ''t'' [] [ex_column ''id'', ex_column ''old_name''] []"
      "ex_deprecated ''old_name'' ''new_name''" "\<lparr>RenameTo = ''new_name''\<rparr>"
      ToLower_ASCII "symbolic ''primary''"]
  by (simp add: ex_defs diff_defs)

subsection \<open>The three passes\<close>

lemma symbolic_simps [simp]:
  "AddColumn (symbolic pk) = SqlAddColumn" "DropColumn (symbolic pk) = SqlDropColumn"
  "ModifyColumn (symbolic pk) = SqlModifyColumn" "RenameColumn (symbolic pk) = SqlRenameColumn"
  "AddIndex (symbolic pk) = SqlAddIndex" "DropIndex (symbolic pk) = SqlDropIndex"
  "PrimaryKeyName (symbolic pk) = pk"
  by (simp_all add: symbolic_def)

text \<open>An invariant of the expression list is kept by the pass if every step keeps it.\<close>

lemma Diff_columns_invariant:
  assumes "t \<noteq> p" "deref h t = Some cur" "deref h p = Some prev"
      and "Diff_columns d t p cols (h, es) = Inr (h', es')"
      and "P es"
      and step: "\<And>h prev col es h1 es1.
             deref h t = Some cur \<Longrightarrow> deref h p = Some prev \<Longrightarrow> col \<in> set cols \<Longrightarrow> P es \<Longrightarrow>
             Diff_column d t p col (h, es) = Inr (h1, es1) \<Longrightarrow> P es1"
  shows "P es'"
  using assms(2-6)
proof (induction cols arbitrary: h es prev)
  case Nil
  then show ?case by simp
next
  case (Cons x xs)
  from Cons.prems(3) obtain h1 es1 where
    first: "Diff_column d t p x (h, es) = Inr (h1, es1)" and
    rest: "Diff_columns d t p xs (h1, es1) = Inr (h', es')"
    by (auto simp del: Diff_column.simps split: sum.splits)
  from Diff_column_shape [OF assms(1) Cons.prems(1,2) first] obtain cs where
    h1: "h1 = h[p := prev\<lparr>Table.Columns := cs\<rparr>]" by blast
  have plen: "p < length h" using Cons.prems(2) by (auto simp: deref_def split: if_splits)
  have t1: "deref h1 t = Some cur"
    using assms(1) Cons.prems(1) by (simp add: h1 deref_update)
  have p1: "deref h1 p = Some (prev\<lparr>Table.Columns := cs\<rparr>)"
    using plen by (simp add: h1 deref_update)
  have P1: "P es1"
    using Cons.prems(5) [OF Cons.prems(1,2) _ Cons.prems(4) first] by simp
  show ?case
  proof (rule Cons.IH [OF t1 p1 rest P1])
    fix h prev col es h1 es1
    assume "deref h t = Some cur" "deref h p = Some prev" "col \<in> set xs" "P es"
      "Diff_column d t p col (h, es) = Inr (h1, es1)"
    then show "P es1" using Cons.prems(5) [of h prev col es h1 es1] by simp
  qed
qed

lemma Diff_prev_keys_eq:
  "Diff_prev_keys lower d ix ks es =
     es @ map (DropIndex d) (filter (\<lambda>k. lower (Key.Name k) \<notin> ix) ks)"
  unfolding Diff_prev_keys_def
  by (induction ks arbitrary: es) (simp_all add: Diff_prev_key_def)

lemma Diff_key_eq:
  "Diff_key d prev k (ix, es) =
     (insert (Diff_key_name d k) ix, es @ snd (Diff_key d prev k ({}, [])))"
  by (simp add: Let_def split: option.splits)

lemma Diff_keys_eq:
  "Diff_keys d prev ks (ix, es) =
     (ix \<union> Diff_key_name d ` set ks,
      es @ concat (map (\<lambda>k. snd (Diff_key d prev k ({}, []))) ks))"
  unfolding Diff_keys_def
proof (induction ks arbitrary: ix es)
  case Nil
  then show ?case by simp
next
  case (Cons k ks)
  have "foldl (\<lambda>s key. Diff_key d prev key s) (ix, es) (k # ks) =
        foldl (\<lambda>s key. Diff_key d prev key s)
          (insert (Diff_key_name d k) ix, es @ snd (Diff_key d prev k ({}, []))) ks"
    by (simp add: Diff_key_eq [of d prev k ix es] del: Diff_key.simps)
  then show ?case
    by (simp add: Cons.IH del: Diff_key.simps)
qed

lemma Diff_key_index_exprs:
  "set (snd (Diff_key d prev k ({}, []))) \<subseteq> {AddIndex d k, DropIndex d k}"
  by (auto simp: Let_def split: option.splits)

lemma Diff_tail:
  assumes "deref h t = Some cur" and "Diff lower d t p h = Inr (plan, h')"
  shows "\<exists>es1 prev1.
           Diff_columns d t p (Table.Columns cur) (h, []) = Inr (h', es1) \<and>
           deref h' p = Some prev1 \<and>
           plan = es1 @ concat (map (\<lambda>k. snd (Diff_key d prev1 k ({}, []))) (Table.Keys cur)) @
                  map (DropIndex d)
                    (filter (\<lambda>k. lower (Key.Name k) \<notin> Diff_key_name d ` set (Table.Keys cur))
                       (Table.Keys prev1))"
proof (cases "Diff_columns d t p (Table.Columns cur) (h, [])")
  case (Inl e)
  with assms show ?thesis by (simp add: Diff_def)
next
  case (Inr s)
  obtain h1 es1 where s: "s = (h1, es1)" by (cases s)
  show ?thesis
  proof (cases "deref h1 p")
    case None
    with assms Inr s show ?thesis by (simp add: Diff_def)
  next
    case (Some prev1)
    with assms Inr s show ?thesis
      by (simp add: Diff_def Diff_keys_eq Diff_prev_keys_eq)
  qed
qed

subsection \<open>Any dialect renders the symbolic plan\<close>

lemma Diff_key_name_symbolic [simp]:
  "Diff_key_name (symbolic (PrimaryKeyName d)) k = Diff_key_name d k"
  by (simp add: Diff_key_name_def)

lemma Diff_column_render:
  "Diff_column d t p col (h, map (render d) es) =
     map_sum id (\<lambda>(h', es'). (h', map (render d) es'))
       (Diff_column (symbolic (PrimaryKeyName d)) t p col (h, es))"
  by (simp add: Let_def AddCol_def split: option.splits)

lemma Diff_columns_render:
  "Diff_columns d t p cols (h, map (render d) es) =
     map_sum id (\<lambda>(h', es'). (h', map (render d) es'))
       (Diff_columns (symbolic (PrimaryKeyName d)) t p cols (h, es))"
proof (induction cols arbitrary: h es)
  case Nil
  then show ?case by simp
next
  case (Cons c cols)
  show ?case
  proof (cases "Diff_column (symbolic (PrimaryKeyName d)) t p c (h, es)")
    case (Inl e)
    then show ?thesis
      using Diff_column_render [of d t p c h es] by (simp del: Diff_column.simps)
  next
    case (Inr s)
    obtain h1 es1 where "s = (h1, es1)" by (cases s)
    with Inr show ?thesis
      using Diff_column_render [of d t p c h es] Cons.IH [of h1 es1]
      by (simp del: Diff_column.simps)
  qed
qed

lemma Diff_key_render:
  "snd (Diff_key d prev k ({}, [])) =
     map (render d) (snd (Diff_key (symbolic (PrimaryKeyName d)) prev k ({}, [])))"
  by (simp add: Let_def split: option.splits)

lemma Diff_keys_render:
  "concat (map (\<lambda>k. snd (Diff_key d prev k ({}, []))) ks) =
     map (render d)
       (concat (map (\<lambda>k. snd (Diff_key (symbolic (PrimaryKeyName d)) prev k ({}, []))) ks))"
  by (induction ks) (simp_all add: Diff_key_render [of d prev] del: Diff_key.simps)

text \<open>The plan under any dialect is the plan under the symbolic dialect, rendered.\<close>

lemma Diff_render:
  "Diff lower d t p h =
     map_sum id (\<lambda>(es, h'). (map (render d) es, h'))
       (Diff lower (symbolic (PrimaryKeyName d)) t p h)"
proof (cases "deref h t")
  case None
  then show ?thesis by (simp add: Diff_def)
next
  case (Some cur)
  show ?thesis
  proof (cases "Diff_columns (symbolic (PrimaryKeyName d)) t p (Table.Columns cur) (h, [])")
    case (Inl e)
    then show ?thesis
      using Diff_columns_render [of d t p "Table.Columns cur" h "[]"]
      by (simp add: Diff_def Some)
  next
    case (Inr s)
    obtain h1 es1 where s: "s = (h1, es1)" by (cases s)
    have pass: "Diff_columns d t p (Table.Columns cur) (h, []) = Inr (h1, map (render d) es1)"
      using Diff_columns_render [of d t p "Table.Columns cur" h "[]"] Inr s by simp
    show ?thesis
    proof (cases "deref h1 p")
      case None
      then show ?thesis by (simp add: Diff_def Some Inr s pass)
    next
      case prev: (Some prev)
      show ?thesis
        by (simp add: Diff_def Some Inr s pass prev Diff_keys_eq Diff_prev_keys_eq
            Diff_keys_render [of d prev] comp_def del: Diff_key.simps)
    qed
  qed
qed

subsection \<open>The writes of Diff\<close>

lemma rename_targets_append:
  "rename_targets (xs @ ys) = rename_targets xs @ rename_targets ys"
  by (induction xs rule: rename_targets.induct) simp_all

lemma rename_targets_index:
  "set es \<subseteq> range SqlAddIndex \<union> range SqlDropIndex \<Longrightarrow> rename_targets es = []"
  by (induction es rule: rename_targets.induct) auto

text \<open>
  One step of the column pass leaves the previous table with the columns it had and,
  upserted, the targets of the renames that the step emits; so does the pass.
\<close>

lemma Diff_column_registers_drop:
  assumes "deref h t = Some cur" and "deref h p = Some prev"
    and "Diff_column (symbolic pk) t p col (h, es) = Inr (h1, es1)"
  shows "es1 = es @ drop (length es) es1 \<and>
         h1 = h[p := prev\<lparr>Table.Columns :=
                foldl (\<lambda>cols target. Columns_Add (Column_On target p) cols)
                  (Table.Columns prev) (rename_targets (drop (length es) es1))\<rparr>]"
  using assms(2,3)
  by (auto simp: assms(1) Let_def AddCol_Some update_same split: option.splits if_splits)

lemma Diff_column_registers:
  assumes "deref h t = Some cur" and "deref h p = Some prev"
    and "Diff_column (symbolic pk) t p col (h, es) = Inr (h1, es1)"
  shows "\<exists>ops. es1 = es @ ops \<and>
           h1 = h[p := prev\<lparr>Table.Columns :=
                  foldl (\<lambda>cols target. Columns_Add (Column_On target p) cols)
                    (Table.Columns prev) (rename_targets ops)\<rparr>]"
  using Diff_column_registers_drop [OF assms] by blast

lemma Diff_columns_registers:
  assumes "t \<noteq> p" and "deref h t = Some cur" and "deref h p = Some prev"
    and "Diff_columns (symbolic pk) t p cols (h, es) = Inr (h', es')"
  shows "\<exists>ops. es' = es @ ops \<and>
           h' = h[p := prev\<lparr>Table.Columns :=
                  foldl (\<lambda>cols target. Columns_Add (Column_On target p) cols)
                    (Table.Columns prev) (rename_targets ops)\<rparr>]"
  using assms(2-4)
proof (induction cols arbitrary: h es prev)
  case Nil
  then have "es' = es @ []" and
    "h' = h[p := prev\<lparr>Table.Columns :=
        foldl (\<lambda>cols target. Columns_Add (Column_On target p) cols)
          (Table.Columns prev) (rename_targets [])\<rparr>]"
    by (simp_all add: update_same)
  then show ?case by blast
next
  case (Cons col cols)
  let ?reg = "\<lambda>cs ops. foldl (\<lambda>cols target. Columns_Add (Column_On target p) cols) cs
                 (rename_targets ops)"
  from Cons.prems(3) obtain h1 es1 where
    first: "Diff_column (symbolic pk) t p col (h, es) = Inr (h1, es1)" and
    rest: "Diff_columns (symbolic pk) t p cols (h1, es1) = Inr (h', es')"
    by (auto simp del: Diff_column.simps split: sum.splits)
  from Diff_column_registers [OF Cons.prems(1,2) first] obtain ops where
    es1: "es1 = es @ ops" and
    h1: "h1 = h[p := prev\<lparr>Table.Columns := ?reg (Table.Columns prev) ops\<rparr>]"
    by blast
  have plen: "p < length h" using Cons.prems(2) by (auto simp: deref_def split: if_splits)
  have t1: "deref h1 t = Some cur"
    using assms(1) Cons.prems(1) by (simp add: h1 deref_update)
  have p1: "deref h1 p = Some (prev\<lparr>Table.Columns := ?reg (Table.Columns prev) ops\<rparr>)"
    using plen by (simp add: h1 deref_update)
  from Cons.IH [OF t1 p1 rest] obtain ops' where
    "es' = es1 @ ops'" and
    "h' = h1[p := prev\<lparr>Table.Columns := ?reg (Table.Columns prev) ops\<rparr>
               \<lparr>Table.Columns := ?reg (?reg (Table.Columns prev) ops) ops'\<rparr>]"
    by auto
  then have "es' = es @ (ops @ ops')" and
    "h' = h[p := prev\<lparr>Table.Columns := ?reg (Table.Columns prev) (ops @ ops')\<rparr>]"
    by (simp_all add: es1 h1 rename_targets_append)
  then show ?case by blast
qed

text \<open>
  Claim C6, as amended. For two distinct tables, \<^verbatim>\<open>Diff\<close> leaves the current table and
  every other table of the store unchanged; of the previous table it changes the
  collection \<^verbatim>\<open>Columns\<close> only, and that by registering rename targets: after the call
  the previous table has the columns it had, in which the target of every
  \<^verbatim>\<open>RenameColumn\<close> of the plan, in the order of the plan, has been upserted as a
  column owned by the previous table. (The plan is read in the symbolic dialect; the
  plan of the dialect at hand is its rendering.) When no column of the current table
  carries a rename target, the previous table, hence the whole store, is unchanged.
\<close>

theorem Diff_writes_only_previous_columns:
  assumes "t \<noteq> p" and "deref h t = Some cur" and "deref h p = Some prev"
    and "Diff lower d t p h = Inr (plan, h')"
  shows "\<exists>splan.
           Diff lower (symbolic (PrimaryKeyName d)) t p h = Inr (splan, h') \<and>
           plan = map (render d) splan \<and>
           h' = h[p := prev\<lparr>Table.Columns :=
                  foldl (\<lambda>cols target. Columns_Add (Column_On target p) cols)
                    (Table.Columns prev) (rename_targets splan)\<rparr>] \<and>
           deref h' t = Some cur \<and>
           (list_all (\<lambda>c. \<not> has_rename_target c) (Table.Columns cur) \<longrightarrow> h' = h)"
proof -
  let ?sym = "symbolic (PrimaryKeyName d) :: SqlExpr Dialect"
  from assms(4) Diff_render [of lower d t p h] obtain splan where
    sym: "Diff lower ?sym t p h = Inr (splan, h')" and plan: "plan = map (render d) splan"
    by (cases "Diff lower ?sym t p h") auto
  from Diff_tail [OF assms(2) sym] obtain es1 prev1 where
    pass: "Diff_columns ?sym t p (Table.Columns cur) (h, []) = Inr (h', es1)" and
    splan: "splan = es1 @
              concat (map (\<lambda>k. snd (Diff_key ?sym prev1 k ({}, []))) (Table.Keys cur)) @
              map (DropIndex ?sym)
                (filter (\<lambda>k. lower (Key.Name k) \<notin> Diff_key_name ?sym ` set (Table.Keys cur))
                   (Table.Keys prev1))"
    by blast
  have "set (concat (map (\<lambda>k. snd (Diff_key ?sym prev1 k ({}, []))) (Table.Keys cur))) \<subseteq>
        range SqlAddIndex \<union> range SqlDropIndex"
    using Diff_key_index_exprs [of ?sym prev1] by fastforce
  then have keys: "rename_targets
      (concat (map (\<lambda>k. snd (Diff_key ?sym prev1 k ({}, []))) (Table.Keys cur))) = []"
    by (rule rename_targets_index)
  have drops: "rename_targets (map SqlDropIndex ks) = []" for ks
    by (rule rename_targets_index) auto
  have targets: "rename_targets splan = rename_targets es1"
    unfolding splan rename_targets_append keys by (simp add: drops)
  from Diff_columns_registers [OF assms(1-3) pass] have
    shape: "h' = h[p := prev\<lparr>Table.Columns :=
              foldl (\<lambda>cols target. Columns_Add (Column_On target p) cols)
                (Table.Columns prev) (rename_targets splan)\<rparr>]"
    by (simp add: targets)
  have "deref h' t = Some cur"
    using assms(1,2) by (subst shape) (simp add: deref_update)
  moreover have "h' = h" if "list_all (\<lambda>c. \<not> has_rename_target c) (Table.Columns cur)"
    by (rule Diff_columns_no_rename [OF assms(1-3) that pass])
  ultimately show ?thesis using sym plan shape by blast
qed

theorem Diff_writes_only_previous_columns_witness:
  "(0::nat) \<noteq> 1 \<and>
   Diff ToLower_ASCII (symbolic ''primary'') 0 1
     [ex_table ''t'' []
        [ex_column ''id'', ex_deprecated ''old_name'' ''new_name'', ex_column ''new_name''] [],
      ex_table ''t'' [] [ex_column ''id'', ex_column ''old_name''] []] =
     Inr ([SqlModifyColumn (ex_column ''id''),
           SqlRenameColumn (ex_deprecated ''old_name'' ''new_name'') (ex_column ''new_name''),
           SqlModifyColumn (ex_column ''new_name'')],
          [ex_table ''t'' []
             [ex_column ''id'', ex_deprecated ''old_name'' ''new_name'', ex_column ''new_name''] [],
           ex_table ''t'' []
             [ex_column ''id'', ex_column ''old_name'',
              (ex_column ''new_name'')\<lparr>Column.Table := Some 1\<rparr>] []]) \<and>
   rename_targets
     [SqlModifyColumn (ex_column ''id''),
      SqlRenameColumn (ex_deprecated ''old_name'' ''new_name'') (ex_column ''new_name''),
      SqlModifyColumn (ex_column ''new_name'')] = [ex_column ''new_name''] \<and>
   foldl (\<lambda>cols target. Columns_Add (Column_On target 1) cols)
     [ex_column ''id'', ex_column ''old_name''] [ex_column ''new_name''] =
     [ex_column ''id'', ex_column ''old_name'',
      (ex_column ''new_name'')\<lparr>Column.Table := Some 1\<rparr>]"
  using Diff_writes_only_previous_columns [of 0 1
      "[ex_table ''t'' []
          [ex_column ''id'', ex_deprecated ''old_name'' ''new_name'', ex_column ''new_name''] [],
        ex_table ''t'' [] [ex_column ''id'', ex_column ''old_name''] []]"
      "ex_table ''t'' []
          [ex_column ''id'', ex_deprecated ''old_name'' ''new_name'', ex_column ''new_name''] []"
      "ex_table ''t'' [] [ex_column ''id'', ex_column ''old_name''] []"
      ToLower_ASCII "symbolic ''primary''"
      "[SqlModifyColumn (ex_column ''id''),
        SqlRenameColumn (ex_deprecated ''old_name'' ''new_name'') (ex_column ''new_name''),
        SqlModifyColumn (ex_column ''new_name'')]"
      "[ex_table ''t'' []
          [ex_column ''id'', ex_deprecated ''old_name'' ''new_name'', ex_column ''new_name''] [],
        ex_table ''t'' []
          [ex_column ''id'', ex_column ''old_name'',
           (ex_column ''new_name'')\<lparr>Column.Table := Some 1\<rparr>] []]"]
  by (simp add: ex_defs diff_defs)

text \<open>
  Claim C6 as stated fails: a rename registers the target column into the previous
  table, whose columns are then not the ones it had before the call.
\<close>

theorem Diff_pure_counterexample:
  "Diff ToLower_ASCII (symbolic ''primary'') 0 1
     [ex_table ''t'' [] [ex_deprecated ''old_name'' ''new_name'', ex_column ''new_name''] [],
      ex_table ''t'' [] [ex_column ''old_name''] []] =
     Inr ([SqlRenameColumn (ex_deprecated ''old_name'' ''new_name'') (ex_column ''new_name''),
           SqlModifyColumn (ex_column ''new_name'')],
          [ex_table ''t'' [] [ex_deprecated ''old_name'' ''new_name'', ex_column ''new_name''] [],
           ex_table ''t'' []
             [ex_column ''old_name'', (ex_column ''new_name'')\<lparr>Column.Table := Some 1\<rparr>] []]) \<and>
   Table.Columns (ex_table ''t'' []
       [ex_column ''old_name'', (ex_column ''new_name'')\<lparr>Column.Table := Some 1\<rparr>] []) \<noteq>
   Table.Columns (ex_table ''t'' [] [ex_column ''old_name''] [])"
  by (simp add: ex_defs diff_defs)

subsection \<open>Columns that the current table does not declare\<close>

lemma Diff_column_subjects:
  assumes "deref h t = Some cur" "deref h p = Some prev" "col \<in> set (Table.Columns cur)"
      and "\<forall>e\<in>set es. \<forall>c\<in>set (expr_columns e). Column.Name c \<in> Column.Name ` set (Table.Columns cur)"
      and "Diff_column (symbolic pk) t p col (h, es) = Inr (h1, es1)"
  shows "\<forall>e\<in>set es1. \<forall>c\<in>set (expr_columns e). Column.Name c \<in> Column.Name ` set (Table.Columns cur)"
  using assms(3,4,5)
  by (auto simp: assms(1,2) Let_def AddCol_Some split: option.splits if_splits
      dest!: Columns_Col_Some) (metis image_eqI)+

text \<open>
  Claim C7. In the plan that \<^verbatim>\<open>Diff\<close> returns for two distinct tables, every column
  that an operation is about bears the name of a column of the current table. So a
  column of the previous table whose name no current column has is the subject of no
  operation; in particular it is never dropped.
\<close>

theorem Diff_never_touches_absent_columns:
  assumes "t \<noteq> p" and "deref h t = Some cur" and "deref h p = Some prev"
    and "Diff lower (symbolic pk) t p h = Inr (plan, h')"
    and "c \<in> set (Table.Columns prev)"
    and "Column.Name c \<notin> Column.Name ` set (Table.Columns cur)"
  shows "(\<forall>e\<in>set plan. c \<notin> set (expr_columns e)) \<and> SqlDropColumn c \<notin> set plan"
proof -
  let ?named = "\<lambda>e. \<forall>c\<in>set (expr_columns e). Column.Name c \<in> Column.Name ` set (Table.Columns cur)"
  from Diff_tail [OF assms(2,4)] obtain es1 prev1 where
    pass: "Diff_columns (symbolic pk) t p (Table.Columns cur) (h, []) = Inr (h', es1)" and
    plan: "plan = es1 @
             concat (map (\<lambda>k. snd (Diff_key (symbolic pk) prev1 k ({}, []))) (Table.Keys cur)) @
             map (DropIndex (symbolic pk))
               (filter (\<lambda>k. lower (Key.Name k) \<notin>
                   Diff_key_name (symbolic pk) ` set (Table.Keys cur)) (Table.Keys prev1))"
    by blast
  have cols: "\<forall>e\<in>set es1. ?named e"
    by (rule Diff_columns_invariant [OF assms(1-3) pass, where P = "\<lambda>es. \<forall>e\<in>set es. ?named e"])
      (simp, rule Diff_column_subjects)
  have keys: "?named e"
    if "e \<in> set (snd (Diff_key (symbolic pk) prev1 k ({}, [])))" for e k
    using that Diff_key_index_exprs [of "symbolic pk" prev1 k] by auto
  have all: "\<forall>e\<in>set plan. ?named e"
    using cols keys by (auto simp: plan)
  then have "\<forall>e\<in>set plan. c \<notin> set (expr_columns e)"
    using assms(6) by blast
  moreover from this have "SqlDropColumn c \<notin> set plan" by force
  ultimately show ?thesis by simp
qed

theorem Diff_never_touches_absent_columns_witness:
  "(0::nat) \<noteq> 1 \<and>
   ex_column ''legacy'' \<in> set [ex_column ''id'', ex_column ''legacy''] \<and>
   Column.Name (ex_column ''legacy'') \<notin> Column.Name ` set [ex_column ''id''] \<and>
   Diff ToLower_ASCII (symbolic ''primary'') 0 1
     [ex_table ''t'' [] [ex_column ''id''] [],
      ex_table ''t'' [] [ex_column ''id'', ex_column ''legacy''] []] =
     Inr ([SqlModifyColumn (ex_column ''id'')],
          [ex_table ''t'' [] [ex_column ''id''] [],
           ex_table ''t'' [] [ex_column ''id'', ex_column ''legacy''] []]) \<and>
   SqlDropColumn (ex_column ''legacy'') \<notin> set [SqlModifyColumn (ex_column ''id'')]"
  using Diff_never_touches_absent_columns [of 0 1
      "[ex_table ''t'' [] [ex_column ''id''] [],
        ex_table ''t'' [] [ex_column ''id'', ex_column ''legacy''] []]"
      "ex_table ''t'' [] [ex_column ''id''] []"
      "ex_table ''t'' [] [ex_column ''id'', ex_column ''legacy''] []"
      ToLower_ASCII "''primary''" "[SqlModifyColumn (ex_column ''id'')]"
      "[ex_table ''t'' [] [ex_column ''id''] [],
        ex_table ''t'' [] [ex_column ''id'', ex_column ''legacy''] []]"
      "ex_column ''legacy''"]
  by (simp add: ex_defs diff_defs)

subsection \<open>The last pass\<close>

text \<open>
  The plan of \<^verbatim>\<open>Diff\<close> for two distinct tables is what the column pass and the pass
  over the current keys emit, followed by \<^verbatim>\<open>DropIndex\<close> of exactly those keys of the
  previous table, in its order, whose lower-cased name is not one of the visited
  names, which are recorded as they are.
\<close>

lemma Diff_final_pass_exprs:
  assumes "t \<noteq> p" and "deref h t = Some cur" and "deref h p = Some prev"
    and "Diff lower d t p h = Inr (plan, h')"
  shows "\<exists>es1 prev1.
           Diff_columns d t p (Table.Columns cur) (h, []) = Inr (h', es1) \<and>
           deref h' p = Some prev1 \<and>
           plan = (es1 @ concat (map (\<lambda>k. snd (Diff_key d prev1 k ({}, []))) (Table.Keys cur))) @
                  map (DropIndex d)
                    (filter (\<lambda>k. lower (Key.Name k) \<notin> Diff_key_name d ` set (Table.Keys cur))
                       (Table.Keys prev))"
proof -
  from Diff_tail [OF assms(2,4)] obtain es1 prev1 where
    pass: "Diff_columns d t p (Table.Columns cur) (h, []) = Inr (h', es1)" and
    p1: "deref h' p = Some prev1" and
    plan: "plan = es1 @ concat (map (\<lambda>k. snd (Diff_key d prev1 k ({}, []))) (Table.Keys cur)) @
             map (DropIndex d)
               (filter (\<lambda>k. lower (Key.Name k) \<notin> Diff_key_name d ` set (Table.Keys cur))
                  (Table.Keys prev1))"
    by blast
  from Diff_columns_shape [OF assms(1-3) pass] obtain cs where
    "h' = h[p := prev\<lparr>Table.Columns := cs\<rparr>]" by blast
  moreover have "p < length h" using assms(3) by (auto simp: deref_def split: if_splits)
  ultimately have "prev1 = prev\<lparr>Table.Columns := cs\<rparr>"
    using p1 by (simp add: deref_update)
  then have "Table.Keys prev1 = Table.Keys prev" by simp
  with pass p1 plan show ?thesis by auto
qed

text \<open>
  When every visited name is in lower case already, the test of the last pass is the
  comparison without regard to case: a previous key is dropped if and only if its
  name equals no visited name once both are lower-cased.
\<close>

lemma Diff_final_pass_lower_case_names:
  assumes "\<forall>n\<in>visited. lower n = n"
  shows "lower name \<notin> visited \<longleftrightarrow> \<not> (\<exists>n\<in>visited. lower name = lower n)"
  using assms by force

text \<open>
  Claim C5. The claim compares the name of a previous key with the visited names
  without regard to case. The source lower-cases the name of the previous key and
  looks it up among the visited names, which it has recorded without lower-casing
  them. The current table and the previous table both have the index \<open>Idx_A\<close> on the
  same column; the key pass finds the previous key under the visited name \<open>Idx_A\<close>
  and emits nothing, and the last pass looks for \<open>idx_a\<close>, does not find it, and
  drops the index, which the claim says is never dropped.
\<close>

theorem Diff_final_pass_drops_matched_key:
  "Diff ToLower_ASCII (symbolic ''primary'') 0 1
     [ex_table ''t'' [] [ex_column ''a''] [ex_index ''Idx_A'' [ex_column ''a'']],
      ex_table ''t'' [] [ex_column ''a''] [ex_index ''Idx_A'' [ex_column ''a'']]] =
     Inr ([SqlModifyColumn (ex_column ''a''),
           SqlDropIndex (ex_index ''Idx_A'' [ex_column ''a''])],
          [ex_table ''t'' [] [ex_column ''a''] [ex_index ''Idx_A'' [ex_column ''a'']],
           ex_table ''t'' [] [ex_column ''a''] [ex_index ''Idx_A'' [ex_column ''a'']]]) \<and>
   Keys_Key [ex_index ''Idx_A'' [ex_column ''a'']]
     (Diff_key_name (symbolic ''primary'') (ex_index ''Idx_A'' [ex_column ''a''])) =
     Some (ex_index ''Idx_A'' [ex_column ''a'']) \<and>
   ToLower_ASCII (Key.Name (ex_index ''Idx_A'' [ex_column ''a''])) =
     ToLower_ASCII (Diff_key_name (symbolic ''primary'') (ex_index ''Idx_A'' [ex_column ''a'']))"
  by (simp add: ex_defs diff_defs)

subsection \<open>The rename of a column\<close>

lemma Diff_columns_append:
  "Diff_columns d t p (xs @ ys) s =
     (case Diff_columns d t p xs s of Inl e \<Rightarrow> Inl e | Inr s' \<Rightarrow> Diff_columns d t p ys s')"
  by (induction xs arbitrary: s) (simp_all del: Diff_column.simps split: sum.splits)

text \<open>
  Claim C2, as amended. Let the walk over the columns of the current table reach the
  column \<open>col\<close> with the expressions \<open>es1\<close> emitted so far and the previous table
  \<open>prev1\<close>; let \<open>col\<close> be the column registered under its name, known to the previous
  table, with the non-empty rename target \<open>R\<close>, under which the current table registers
  \<open>target\<close>. Then the step for \<open>col\<close> emits \<^verbatim>\<open>DropColumn\<close> of the column that the
  previous table has under the new name \<open>R\<close>, if it has one (nothing is dropped under
  the old name), then \<^verbatim>\<open>RenameColumn\<close> from \<open>col\<close> to \<open>target\<close>, and nothing else; it
  registers \<open>target\<close>, owned by the previous table, into the previous table; and the walk
  goes on with the next column.
\<close>

theorem Diff_rename_step:
  assumes "t \<noteq> p" and "deref h t = Some cur" and "deref h p = Some prev"
    and "Table.Columns cur = xs @ col # ys"
    and "Diff_columns d t p xs (h, []) = Inr (h1, es1)"
    and "deref h1 p = Some prev1"
    and "Columns_Col (Table.Columns cur) (Column.Name col) = Some col"
    and "Columns_Col (Table.Columns prev1) (Column.Name col) \<noteq> None"
    and "DeprecatedActions col = Some actions" and "RenameTo actions \<noteq> []"
    and "Columns_Col (Table.Columns cur) (RenameTo actions) = Some target"
  shows "Diff_column d t p col (h1, es1) =
           Inr (h1[p := prev1\<lparr>Table.Columns :=
                     Columns_Add (Column_On target p) (Table.Columns prev1)\<rparr>],
                es1 @ (case Columns_Col (Table.Columns prev1) (RenameTo actions) of
                         None \<Rightarrow> []
                       | Some prevCol \<Rightarrow> [DropColumn d prevCol]) @
                      [RenameColumn d col target]) \<and>
         Diff_columns d t p (Table.Columns cur) (h, []) =
           Diff_columns d t p ys
             (h1[p := prev1\<lparr>Table.Columns :=
                   Columns_Add (Column_On target p) (Table.Columns prev1)\<rparr>],
              es1 @ (case Columns_Col (Table.Columns prev1) (RenameTo actions) of
                       None \<Rightarrow> []
                     | Some prevCol \<Rightarrow> [DropColumn d prevCol]) @
                    [RenameColumn d col target])"
proof -
  from Diff_columns_shape [OF assms(1-3) assms(5)] obtain cs where
    "h1 = h[p := prev\<lparr>Table.Columns := cs\<rparr>]" by blast
  then have t1: "deref h1 t = Some cur"
    using assms(1,2) by (simp add: deref_update)
  have step: "Diff_column d t p col (h1, es1) =
           Inr (h1[p := prev1\<lparr>Table.Columns :=
                     Columns_Add (Column_On target p) (Table.Columns prev1)\<rparr>],
                es1 @ (case Columns_Col (Table.Columns prev1) (RenameTo actions) of
                         None \<Rightarrow> []
                       | Some prevCol \<Rightarrow> [DropColumn d prevCol]) @
                      [RenameColumn d col target])"
    using assms(8) by (simp add: t1 assms(6,7,9,10,11) AddCol_Some Let_def split: option.splits)
  have "Diff_columns d t p (Table.Columns cur) (h, []) =
          Diff_columns d t p (col # ys) (h1, es1)"
    by (simp add: assms(4,5) Diff_columns_append del: Diff_columns.simps)
  with step show ?thesis by (simp del: Diff_column.simps)
qed

theorem Diff_rename_step_witness:
  "(0::nat) \<noteq> 1 \<and>
   Diff_columns (symbolic ''primary'') 0 1 [ex_column ''id'']
     ([ex_table ''t'' []
         [ex_column ''id'', ex_deprecated ''old_name'' ''new_name'', ex_column ''new_name''] [],
       ex_table ''t'' [] [ex_column ''id'', ex_column ''old_name'', ex_column ''new_name''] []],
      []) =
     Inr ([ex_table ''t'' []
             [ex_column ''id'', ex_deprecated ''old_name'' ''new_name'', ex_column ''new_name''] [],
           ex_table ''t'' [] [ex_column ''id'', ex_column ''old_name'', ex_column ''new_name''] []],
          [SqlModifyColumn (ex_column ''id'')]) \<and>
   Diff_column (symbolic ''primary'') 0 1 (ex_deprecated ''old_name'' ''new_name'')
     ([ex_table ''t'' []
         [ex_column ''id'', ex_deprecated ''old_name'' ''new_name'', ex_column ''new_name''] [],
       ex_table ''t'' [] [ex_column ''id'', ex_column ''old_name'', ex_column ''new_name''] []],
      [SqlModifyColumn (ex_column ''id'')]) =
     Inr ([ex_table ''t'' []
             [ex_column ''id'', ex_deprecated ''old_name'' ''new_name'', ex_column ''new_name''] [],
           ex_table ''t'' []
             [ex_column ''id'', ex_column ''old_name'',
              (ex_column ''new_name'')\<lparr>Column.Table := Some 1\<rparr>] []],
          [SqlModifyColumn (ex_column ''id''), SqlDropColumn (ex_column ''new_name''),
           SqlRenameColumn (ex_deprecated ''old_name'' ''new_name'') (ex_column ''new_name'')])"
  using Diff_rename_step [of 0 1
      "[ex_table ''t'' []
          [ex_column ''id'', ex_deprecated ''old_name'' ''new_name'', ex_column ''new_name''] [],
        ex_table ''t'' [] [ex_column ''id'', ex_column ''old_name'', ex_column ''new_name''] []]"
      "ex_table ''t'' []
          [ex_column ''id'', ex_deprecated ''old_name'' ''new_name'', ex_column ''new_name''] []"
      "ex_table ''t'' [] [ex_column ''id'', ex_column ''old_name'', ex_column ''new_name''] []"
      "[ex_column ''id'']" "ex_deprecated ''old_name'' ''new_name''" "[ex_column ''new_name'']"
      "symbolic ''primary''"
      "[ex_table ''t'' []
          [ex_column ''id'', ex_deprecated ''old_name'' ''new_name'', ex_column ''new_name''] [],
        ex_table ''t'' [] [ex_column ''id'', ex_column ''old_name'', ex_column ''new_name''] []]"
      "[SqlModifyColumn (ex_column ''id'')]"
      "ex_table ''t'' [] [ex_column ''id'', ex_column ''old_name'', ex_column ''new_name''] []"
      "\<lparr>RenameTo = ''new_name''\<rparr>" "ex_column ''new_name''"]
  by (simp add: ex_defs diff_defs)

text \<open>
  Claim C2 as stated fails: the previous table has the column under its old name, and
  no \<^verbatim>\<open>DropColumn\<close> is emitted for it, nor any at all.
\<close>

theorem Diff_rename_counterexample:
  "Columns_Col [ex_column ''id'', ex_column ''old_name''] ''old_name'' =
     Some (ex_column ''old_name'') \<and>
   Diff ToLower_ASCII (symbolic ''primary'') 0 1
     [ex_table ''t'' []
        [ex_column ''id'', ex_deprecated ''old_name'' ''new_name'', ex_column ''new_name''] [],
      ex_table ''t'' [] [ex_column ''id'', ex_column ''old_name''] []] =
     Inr ([SqlModifyColumn (ex_column ''id''),
           SqlRenameColumn (ex_deprecated ''old_name'' ''new_name'') (ex_column ''new_name''),
           SqlModifyColumn (ex_column ''new_name'')],
          [ex_table ''t'' []
             [ex_column ''id'', ex_deprecated ''old_name'' ''new_name'', ex_column ''new_name''] [],
           ex_table ''t'' []
             [ex_column ''id'', ex_column ''old_name'',
              (ex_column ''new_name'')\<lparr>Column.Table := Some 1\<rparr>] []]) \<and>
   SqlDropColumn (ex_column ''old_name'') \<notin>
     set [SqlModifyColumn (ex_column ''id''),
          SqlRenameColumn (ex_deprecated ''old_name'' ''new_name'') (ex_column ''new_name''),
          SqlModifyColumn (ex_column ''new_name'')]"
  by (simp add: ex_defs diff_defs)

subsection \<open>The recreation of an index\<close>

text \<open>What the key pass emits for a current key that the previous table has.\<close>

lemma Diff_key_matched_primary:
  "IsPrimary k \<Longrightarrow> Keys_Key (Table.Keys prev) (PrimaryKeyName d) = Some prevKey \<Longrightarrow>
   snd (Diff_key d prev k ({}, [])) = []"
  by (simp add: Diff_key_name_def)

lemma Diff_key_matched_index:
  "\<not> IsPrimary k \<Longrightarrow> Keys_Key (Table.Keys prev) (Key.Name k) = Some prevKey \<Longrightarrow>
   snd (Diff_key d prev k ({}, [])) =
     (if Columns_Query (Key.Columns k) \<noteq> Columns_Query (Table.Columns prev)
      then [DropIndex d k, AddIndex d k] else [])"
  by (simp add: Diff_key_name_def)

text \<open>
  Claim C1. The claim compares the columns of a current key with the columns of the
  previous key of the same name. The source looks that key up and then compares with
  the columns of the whole previous table. Two inputs show the difference. In the
  first, the key \<open>idx_a\<close> has the same column list in both tables and is dropped and
  added again, because the previous table has one more column than the key. In the
  second, the column list of \<open>idx\<close> has changed and no index operation is emitted,
  because the new list is the column list of the previous table.
\<close>

theorem Diff_index_recreation_compares_table_columns:
  "Columns_Query (Key.Columns (ex_index ''idx_a'' [ex_column ''col_a''])) =
     Columns_Query (Key.Columns (ex_index ''idx_a'' [ex_column ''col_a''])) \<and>
   Diff ToLower_ASCII (symbolic ''primary'') 0 1
     [ex_table ''t'' [] [ex_column ''id'', ex_column ''col_a'']
        [ex_index ''idx_a'' [ex_column ''col_a'']],
      ex_table ''t'' [] [ex_column ''id'', ex_column ''col_a'']
        [ex_index ''idx_a'' [ex_column ''col_a'']]] =
     Inr ([SqlModifyColumn (ex_column ''id''), SqlModifyColumn (ex_column ''col_a''),
           SqlDropIndex (ex_index ''idx_a'' [ex_column ''col_a'']),
           SqlAddIndex (ex_index ''idx_a'' [ex_column ''col_a''])],
          [ex_table ''t'' [] [ex_column ''id'', ex_column ''col_a'']
             [ex_index ''idx_a'' [ex_column ''col_a'']],
           ex_table ''t'' [] [ex_column ''id'', ex_column ''col_a'']
             [ex_index ''idx_a'' [ex_column ''col_a'']]]) \<and>
   Columns_Query (Key.Columns (ex_index ''idx'' [ex_column ''a'', ex_column ''b''])) \<noteq>
     Columns_Query (Key.Columns (ex_index ''idx'' [ex_column ''a''])) \<and>
   Diff ToLower_ASCII (symbolic ''primary'') 0 1
     [ex_table ''t'' [] [ex_column ''a'', ex_column ''b'']
        [ex_index ''idx'' [ex_column ''a'', ex_column ''b'']],
      ex_table ''t'' [] [ex_column ''a'', ex_column ''b'']
        [ex_index ''idx'' [ex_column ''a'']]] =
     Inr ([SqlModifyColumn (ex_column ''a''), SqlModifyColumn (ex_column ''b'')],
          [ex_table ''t'' [] [ex_column ''a'', ex_column ''b'']
             [ex_index ''idx'' [ex_column ''a'', ex_column ''b'']],
           ex_table ''t'' [] [ex_column ''a'', ex_column ''b'']
             [ex_index ''idx'' [ex_column ''a'']]])"
  by (simp add: ex_defs diff_defs)

subsection \<open>A table against its copy\<close>

text \<open>
  When every column of the current table is live and known to the previous table, the
  column pass emits one \<^verbatim>\<open>ModifyColumn\<close> per column and nothing else, and writes
  nothing.
\<close>

lemma Diff_columns_matched:
  assumes "deref h t = Some cur" and "deref h p = Some prev"
    and "set cols \<subseteq> set (Table.Columns cur)"
    and "Column.Name ` set (Table.Columns cur) \<subseteq> Column.Name ` set (Table.Columns prev)"
    and "\<forall>c\<in>set (Table.Columns cur). DeprecatedActions c = None"
  shows "Diff_columns d t p cols (h, es) = Inr (h, es @ map (ModifyColumn d) cols)"
  using assms(3)
proof (induction cols arbitrary: es)
  case Nil
  then show ?case by simp
next
  case (Cons c cols)
  have known: "Columns_Col (Table.Columns prev) (Column.Name c) \<noteq> None"
    using Cons.prems assms(4) by (auto simp: Columns_Col_None)
  obtain cc where cc: "Columns_Col (Table.Columns cur) (Column.Name c) = Some cc"
    using Cons.prems by (cases "Columns_Col (Table.Columns cur) (Column.Name c)")
      (auto simp: Columns_Col_None)
  then have "DeprecatedActions cc = None"
    using assms(5) Columns_Col_Some [OF cc] by simp
  with known cc have "Diff_column d t p c (h, es) = Inr (h, es @ [ModifyColumn d c])"
    by (simp add: assms(1,2))
  with Cons show ?case by (simp del: Diff_column.simps)
qed

text \<open>
  Claim C4. A table with live columns only, an unchanged primary key and an unchanged
  index is compared with an identical copy. The column pass emits one
  \<^verbatim>\<open>ModifyColumn\<close> per column, as claimed; the key pass drops and adds the index
  again, where the claim has no index operation. The cause is the comparison shown for
  claim C1.
\<close>

theorem Diff_self_recreates_index:
  "Diff ToLower_ASCII (symbolic ''primary'') 0 1
     [ex_table ''users'' ''User'' [ex_column ''id'', ex_column ''name'']
        [ex_primary ''primary'' [ex_column ''id''], ex_index ''idx_name'' [ex_column ''name'']],
      ex_table ''users'' ''User'' [ex_column ''id'', ex_column ''name'']
        [ex_primary ''primary'' [ex_column ''id''], ex_index ''idx_name'' [ex_column ''name'']]] =
     Inr ([SqlModifyColumn (ex_column ''id''), SqlModifyColumn (ex_column ''name''),
           SqlDropIndex (ex_index ''idx_name'' [ex_column ''name'']),
           SqlAddIndex (ex_index ''idx_name'' [ex_column ''name''])],
          [ex_table ''users'' ''User'' [ex_column ''id'', ex_column ''name'']
             [ex_primary ''primary'' [ex_column ''id''],
              ex_index ''idx_name'' [ex_column ''name'']],
           ex_table ''users'' ''User'' [ex_column ''id'', ex_column ''name'']
             [ex_primary ''primary'' [ex_column ''id''],
              ex_index ''idx_name'' [ex_column ''name'']]])"
  by (simp add: ex_defs diff_defs)

subsection \<open>The registry\<close>

lemmas reg_defs = Tables_Add_def Tables_Add_tab_def Tables_Remove_def Tables_zero_def
  Tables_Table_def Tables_Model_def Tables_Range_def Tables_view_def List_New_def
  PushBack_def List_Remove_def deref_def Let_def

text \<open>The invariant holds of the empty registry, and every operation keeps it.\<close>

lemma Tables_inv_zero: "Tables_inv h Tables_zero"
  by (simp add: Tables_inv_def Tables_zero_def)

lemma Tables_inv_init:
  "Tables_inv h (ts\<lparr>l := Some List_New, tables := Some Map.empty, models := Some Map.empty\<rparr>)"
  by (simp add: Tables_inv_def List_New_def)

lemma Tables_invE:
  assumes "Tables_inv h ts" and "tables ts = Some m"
  obtains lst mm where "l ts = Some lst" "models ts = Some mm"
    "distinct (map ident (elems lst))"
    "\<And>e. e \<in> set (elems lst) \<Longrightarrow> ident e < fresh lst"
    "\<And>e. e \<in> set (elems lst) \<Longrightarrow> deref h (Value e) \<noteq> None"
    "\<And>e. e \<in> set (elems lst) \<Longrightarrow> m (entry_name h e) = Some e"
    "dom m = entry_name h ` set (elems lst)"
  using assms
  by (auto simp: Tables_inv_def list_all_iff split: option.splits)

lemma Tables_invI:
  assumes "l ts = Some lst" "tables ts = Some m" "models ts = Some mm"
    "distinct (map ident (elems lst))"
    "\<And>e. e \<in> set (elems lst) \<Longrightarrow> ident e < fresh lst"
    "\<And>e. e \<in> set (elems lst) \<Longrightarrow> deref h (Value e) \<noteq> None"
    "\<And>e. e \<in> set (elems lst) \<Longrightarrow> m (entry_name h e) = Some e"
    "dom m = entry_name h ` set (elems lst)"
  shows "Tables_inv h ts"
  using assms by (auto simp: Tables_inv_def list_all_iff)

lemma Tables_Remove_inv:
  assumes "Tables_inv h ts"
  shows "Tables_inv h (Tables_Remove name ts)"
proof (cases "tables ts")
  case None
  with assms show ?thesis by (simp add: Tables_Remove_def)
next
  case (Some m)
  show ?thesis
  proof (cases "m name")
    case None
    with assms Some show ?thesis by (simp add: Tables_Remove_def)
  next
    case e: (Some e)
    obtain lst mm where
      lst: "l ts = Some lst" and mm: "models ts = Some mm" and
      dist: "distinct (map ident (elems lst))" and
      bound: "\<And>x. x \<in> set (elems lst) \<Longrightarrow> ident x < fresh lst" and
      valid: "\<And>x. x \<in> set (elems lst) \<Longrightarrow> deref h (Value x) \<noteq> None" and
      entry: "\<And>x. x \<in> set (elems lst) \<Longrightarrow> m (entry_name h x) = Some x" and
      dom: "dom m = entry_name h ` set (elems lst)"
      by (rule Tables_invE [OF assms Some]) blast
    let ?lst = "List_Remove e lst"
    let ?ts = "ts\<lparr>l := Some ?lst, tables := Some (m(name := None))\<rparr>"
    have same: "x = e" if "x \<in> set (elems lst)" "entry_name h x = name" for x
      using entry [OF that(1)] that(2) e by simp
    have kept: "entry_name h x \<noteq> name" if "x \<in> set (elems ?lst)" for x
      using that same by (auto simp: List_Remove_def)
    have "name \<in> entry_name h ` set (elems lst)"
      using e dom by auto
    then have e_in: "e \<in> set (elems lst)" and e_name: "entry_name h e = name"
      using same by auto
    have only: "x = e" if "x \<in> set (elems lst)" "ident x = ident e" for x
      using that e_in dist by (auto simp: distinct_map inj_on_def)
    have "Tables_inv h ?ts"
    proof (rule Tables_invI [where lst = ?lst and m = "m(name := None)" and mm = mm])
      show "distinct (map ident (elems ?lst))"
        using dist by (simp add: List_Remove_def distinct_map_filter)
      show "dom (m(name := None)) = entry_name h ` set (elems ?lst)"
      proof -
        have "set (elems ?lst) = set (elems lst) - {e}"
          using only by (auto simp: List_Remove_def)
        moreover have "entry_name h ` (set (elems lst) - {e}) =
            entry_name h ` set (elems lst) - {name}"
          using same e_name by auto
        ultimately show ?thesis using dom by auto
      qed
    next
      fix x assume x: "x \<in> set (elems ?lst)"
      then have x_in: "x \<in> set (elems lst)" by (simp add: List_Remove_def)
      show "ident x < fresh ?lst" using bound [OF x_in] by (simp add: List_Remove_def)
      show "deref h (Value x) \<noteq> None" by (rule valid [OF x_in])
      show "(m(name := None)) (entry_name h x) = Some x"
        using kept [OF x] entry [OF x_in] by simp
    qed (simp_all add: mm)
    then show ?thesis
      by (simp add: Tables_Remove_def Some e lst)
  qed
qed

lemma Tables_Remove_absent:
  "tables ts = Some m \<Longrightarrow>
   \<exists>m'. tables (Tables_Remove name ts) = Some m' \<and> m' name = None"
  by (auto simp: Tables_Remove_def split: option.splits)

lemma Tables_Add_tab_inv:
  assumes "Tables_inv h ts" and "Tables_Add_tab h tab ts = Inr ts'"
  shows "Tables_inv h ts' \<and> (tables ts \<noteq> None \<longrightarrow> tables ts' \<noteq> None)"
proof (cases tab)
  case None
  with assms show ?thesis by (simp add: Tables_Add_tab_def)
next
  case (Some p)
  from assms(2) Some obtain tb m0 where
    tb: "deref h p = Some tb" and m0: "tables ts = Some m0"
    by (auto simp: Tables_Add_tab_def split: option.splits)
  define ts1 where "ts1 = (if m0 (Table.Name tb) \<noteq> None then Tables_Remove (Table.Name tb) ts else ts)"
  have inv1: "Tables_inv h ts1"
    using assms(1) by (simp add: ts1_def Tables_Remove_inv)
  obtain m where m: "tables ts1 = Some m" and absent: "m (Table.Name tb) = None"
  proof (cases "m0 (Table.Name tb)")
    case None
    with m0 that show ?thesis by (simp add: ts1_def)
  next
    case (Some e)
    with Tables_Remove_absent [OF m0, of "Table.Name tb"] that show ?thesis
      by (auto simp: ts1_def)
  qed
  obtain lst mm where
    lst: "l ts1 = Some lst" and mm: "models ts1 = Some mm" and
    dist: "distinct (map ident (elems lst))" and
    bound: "\<And>x. x \<in> set (elems lst) \<Longrightarrow> ident x < fresh lst" and
    valid: "\<And>x. x \<in> set (elems lst) \<Longrightarrow> deref h (Value x) \<noteq> None" and
    entry: "\<And>x. x \<in> set (elems lst) \<Longrightarrow> m (entry_name h x) = Some x" and
    dom: "dom m = entry_name h ` set (elems lst)"
    by (rule Tables_invE [OF inv1 m]) blast
  let ?e = "\<lparr>ident = fresh lst, Value = p\<rparr>"
  let ?lst = "lst\<lparr>elems := elems lst @ [?e], fresh := Suc (fresh lst)\<rparr>"
  let ?m = "m(Table.Name tb \<mapsto> ?e)"
  let ?ts2 = "ts1\<lparr>l := Some ?lst, tables := Some ?m\<rparr>"
  have e_name: "entry_name h ?e = Table.Name tb"
    by (simp add: entry_name_def tb)
  have old_name: "entry_name h x \<noteq> Table.Name tb" if "x \<in> set (elems lst)" for x
    using entry [OF that] absent by auto
  have inv2: "Tables_inv h (?ts2\<lparr>models := Some mm'\<rparr>)" for mm'
  proof (rule Tables_invI [where lst = ?lst and m = ?m and mm = mm'])
    have "fresh lst \<notin> ident ` set (elems lst)"
      using bound by fastforce
    then show "distinct (map ident (elems ?lst))"
      using dist by simp
    show "dom ?m = entry_name h ` set (elems ?lst)"
      using dom e_name by auto
  next
    fix x assume "x \<in> set (elems ?lst)"
    then consider "x \<in> set (elems lst)" | "x = ?e" by auto
    then show "ident x < fresh ?lst"
      using bound less_Suc_eq by cases fastforce+
  next
    fix x assume "x \<in> set (elems ?lst)"
    then consider "x \<in> set (elems lst)" | "x = ?e" by auto
    then show "deref h (Value x) \<noteq> None"
      using valid tb by cases auto
  next
    fix x assume "x \<in> set (elems ?lst)"
    then consider "x \<in> set (elems lst)" | "x = ?e" by auto
    then show "?m (entry_name h x) = Some x"
      using entry old_name e_name by cases auto
  qed simp_all
  have "Tables_Add_tab h tab ts =
          (if ModelName tb \<noteq> [] then Inr (?ts2\<lparr>models := Some (mm(ModelName tb \<mapsto> ?e))\<rparr>)
           else Inr ?ts2)"
    apply (simp only: Tables_Add_tab_def Some tb m0 option.case Let_def flip: ts1_def)
    apply (simp add: lst m mm PushBack_def Let_def)
    done
  with assms(2) have "ts' = ?ts2 \<or> ts' = ?ts2\<lparr>models := Some (mm(ModelName tb \<mapsto> ?e))\<rparr>"
    by (auto split: if_splits)
  moreover have "?ts2 = ?ts2\<lparr>models := Some mm\<rparr>"
    using mm by simp
  ultimately have "ts' = ?ts2\<lparr>models := Some mm\<rparr> \<or>
      ts' = ?ts2\<lparr>models := Some (mm(ModelName tb \<mapsto> ?e))\<rparr>"
    by metis
  then show ?thesis
    using inv2 by auto
qed


lemma Tables_Add_loop_inv:
  "Tables_inv h ts \<Longrightarrow> tables ts \<noteq> None \<Longrightarrow> Tables_Add_loop h tabs ts = Inr ts' \<Longrightarrow>
   Tables_inv h ts'"
proof (induction tabs arbitrary: ts)
  case Nil
  then show ?case by simp
next
  case (Cons tab tabs)
  from Cons.prems(3) obtain ts1 where
    first: "Tables_Add_tab h tab ts = Inr ts1" and rest: "Tables_Add_loop h tabs ts1 = Inr ts'"
    by (auto split: sum.splits)
  from Tables_Add_tab_inv [OF Cons.prems(1) first] Cons.prems(2) rest Cons.IH
  show ?case by blast
qed

lemma Tables_Add_inv:
  "Tables_inv h ts \<Longrightarrow> Tables_Add h tabs ts = Inr ts' \<Longrightarrow> Tables_inv h ts'"
  using Tables_Add_loop_inv [of h _ tabs ts'] Tables_inv_init [of h ts]
  by (auto simp: Tables_Add_def split: if_splits)

lemma Tables_run_inv:
  "Tables_inv h ts \<Longrightarrow> Tables_run h ops ts = Inr ts' \<Longrightarrow> Tables_inv h ts'"
proof (induction h ops ts rule: Tables_run.induct)
  case (1 h ts)
  then show ?case by simp
next
  case (2 h tabs ops ts)
  then show ?case by (auto split: sum.splits dest: Tables_Add_inv)
next
  case (3 h name ops ts)
  then show ?case by (simp add: Tables_Remove_inv)
qed

lemma Tables_names_eq:
  "\<forall>e\<in>set es. deref h (Value e) \<noteq> None \<Longrightarrow>
   Tables_names h (map Value es) = Inr (map (entry_name h) es)"
  by (induction es) (auto simp: entry_name_def)

text \<open>
  After any sequence of \<^verbatim>\<open>Add\<close> and \<^verbatim>\<open>Remove\<close> on the empty registry, no two entries
  of the iteration share a table name, and each is found under its name.
\<close>

lemma Tables_run_distinct_names:
  assumes "Tables_run h ops Tables_zero = Inr ts"
  shows "\<exists>names. TableNames h ts = Inr names \<and> distinct names \<and>
           map (\<lambda>n. Tables_Table ts n) names = map Some (Tables_Range ts)"
proof -
  have inv: "Tables_inv h ts"
    by (rule Tables_run_inv [OF Tables_inv_zero assms])
  show ?thesis
  proof (cases "tables ts")
    case None
    with inv show ?thesis
      by (auto simp: Tables_inv_def TableNames_def Tables_Range_def split: option.splits)
  next
    case (Some m)
    obtain lst where
      lst: "l ts = Some lst" and
      dist: "distinct (map ident (elems lst))" and
      valid: "\<And>x. x \<in> set (elems lst) \<Longrightarrow> deref h (Value x) \<noteq> None" and
      entry: "\<And>x. x \<in> set (elems lst) \<Longrightarrow> m (entry_name h x) = Some x"
      by (rule Tables_invE [OF inv Some]) blast
    have names: "TableNames h ts = Inr (map (entry_name h) (elems lst))"
      using valid by (simp add: TableNames_def Tables_Range_def lst Tables_names_eq)
    have "inj_on (entry_name h) (set (elems lst))"
      using entry by (metis inj_onI option.inject)
    moreover have "distinct (elems lst)"
      using dist by (simp add: distinct_map)
    ultimately have "distinct (map (entry_name h) (elems lst))"
      by (simp add: distinct_map)
    moreover have "map (\<lambda>n. Tables_Table ts n) (map (entry_name h) (elems lst)) =
        map Some (Tables_Range ts)"
      using entry by (simp add: Tables_Table_def Some Tables_Range_def lst)
    ultimately show ?thesis using names by simp
  qed
qed

text \<open>
  \<^verbatim>\<open>Add\<close> of one table puts it last in the iteration and makes it the table found
  under its name.
\<close>

lemma Tables_Add_last:
  assumes "deref h p = Some tb" and "Tables_Add h [Some p] ts = Inr ts'"
  shows "Tables_Range ts' \<noteq> [] \<and> last (Tables_Range ts') = p \<and>
         Tables_Table ts' (Table.Name tb) = Some p"
  using assms
  by (auto simp: Tables_Add_def Tables_Add_tab_def Tables_Remove_def Tables_Range_def
      Tables_Table_def PushBack_def Let_def split: if_splits option.splits)

text \<open>
  Claim C9. \<^verbatim>\<open>Remove\<close> takes the entry out of the list and out of the index by table
  name; the index by model name keeps it. After \<open>users\<close> (model \<open>User\<close>) is added and
  removed, the registry iterates over nothing and finds no table \<open>users\<close>, but it
  still answers the removed table for the model \<open>User\<close>. The same stale entry is left
  when \<open>users\<close> is added again under another model name: the table of the first
  registration is not in the iteration any more, and the model \<open>User\<close> still leads to it.
\<close>

theorem Tables_Remove_keeps_model_entry:
  "map_sum id (Tables_view ''users'' ''User'')
     (Tables_run [ex_table ''users'' ''User'' [] []] [OpAdd [Some 0], OpRemove ''users'']
        Tables_zero) =
     Inr ([], None, Some 0) \<and>
   map_sum id (Tables_view ''users'' ''User'')
     (Tables_run [ex_table ''users'' ''User'' [] [], ex_table ''users'' ''Account'' [] []]
        [OpAdd [Some 0], OpAdd [Some 1]] Tables_zero) =
     Inr ([1], Some 1, Some 0)"
  by (simp add: ex_defs reg_defs)

end
